theory Spec2Isabelle
  imports Complex_Main "HOL-Library.Multiset" "HOL-Library.Sublist"
begin

section \<open>JavaScript values used by the application\<close>

subsection \<open>Strings\<close>

text \<open>
  A string is a list of characters, and a character is a code unit from U+0000 to U+00FF
  (the Latin-1 range). On this range \<open>toLowerCase\<close> and \<open>trim\<close> are
  \<^verbatim>\<open>String.prototype.toLowerCase\<close> and \<^verbatim>\<open>String.prototype.trim\<close>. The capitals are
  \<open>A\<close> to \<open>Z\<close> and U+00C0 to U+00DE without the multiplication sign U+00D7; each is
  mapped to the letter 32 positions later. The white space that \<open>trim\<close> removes is
  tab, line feed, vertical tab, form feed, carriage return, space and the no-break space
  U+00A0.
\<close>

definition toLowerChar :: "char \<Rightarrow> char" where
  "toLowerChar c =
     (case map_of
             (zip (''ABCDEFGHIJKLMNOPQRSTUVWXYZ'' @
                     [CHR 0xC0, CHR 0xC1, CHR 0xC2, CHR 0xC3, CHR 0xC4, CHR 0xC5, CHR 0xC6,
                      CHR 0xC7, CHR 0xC8, CHR 0xC9, CHR 0xCA, CHR 0xCB, CHR 0xCC, CHR 0xCD,
                      CHR 0xCE, CHR 0xCF, CHR 0xD0, CHR 0xD1, CHR 0xD2, CHR 0xD3, CHR 0xD4,
                      CHR 0xD5, CHR 0xD6, CHR 0xD8, CHR 0xD9, CHR 0xDA, CHR 0xDB, CHR 0xDC,
                      CHR 0xDD, CHR 0xDE])
                  (''abcdefghijklmnopqrstuvwxyz'' @
                     [CHR 0xE0, CHR 0xE1, CHR 0xE2, CHR 0xE3, CHR 0xE4, CHR 0xE5, CHR 0xE6,
                      CHR 0xE7, CHR 0xE8, CHR 0xE9, CHR 0xEA, CHR 0xEB, CHR 0xEC, CHR 0xED,
                      CHR 0xEE, CHR 0xEF, CHR 0xF0, CHR 0xF1, CHR 0xF2, CHR 0xF3, CHR 0xF4,
                      CHR 0xF5, CHR 0xF6, CHR 0xF8, CHR 0xF9, CHR 0xFA, CHR 0xFB, CHR 0xFC,
                      CHR 0xFD, CHR 0xFE]))
             c of
        Some l \<Rightarrow> l
      | None \<Rightarrow> c)"

definition toLowerCase :: "string \<Rightarrow> string" where
  "toLowerCase s = map toLowerChar s"

definition isSpace :: "char \<Rightarrow> bool" where
  "isSpace c =
     (c \<in> set [CHR 0x09, CHR 0x0A, CHR 0x0B, CHR 0x0C, CHR 0x0D, CHR '' '', CHR 0xA0])"

definition trim :: "string \<Rightarrow> string" where
  "trim s = rev (dropWhile isSpace (rev (dropWhile isSpace s)))"

text \<open>\<^verbatim>\<open>hay.indexOf(needle)\<close> on strings: the first position at which \<open>needle\<close> starts,
  or \<open>-1\<close>.\<close>

fun strIndexOf :: "string \<Rightarrow> string \<Rightarrow> int" where
  "strIndexOf [] needle = (if needle = [] then 0 else -1)"
| "strIndexOf (c # cs) needle =
     (if prefix needle (c # cs) then 0
      else (let r = strIndexOf cs needle in if r < 0 then -1 else r + 1))"

text \<open>\<^verbatim>\<open>hay.includes(needle)\<close> on strings.\<close>

fun strIncludes :: "string \<Rightarrow> string \<Rightarrow> bool" where
  "strIncludes [] needle = (needle = [])"
| "strIncludes (c # cs) needle = (prefix needle (c # cs) \<or> strIncludes cs needle)"

text \<open>\<^verbatim>\<open>parts.join(sep)\<close>.\<close>

fun join :: "string \<Rightarrow> string list \<Rightarrow> string" where
  "join sep [] = []"
| "join sep [x] = x"
| "join sep (x # y # ys) = x @ sep @ join sep (y # ys)"

text \<open>\<^verbatim>\<open>String(n)\<close> for a non-negative integer: its decimal digits.\<close>

fun decimal :: "nat \<Rightarrow> string" where
  "decimal n =
     (if n < 10 then [''0123456789'' ! n]
      else decimal (n div 10) @ [''0123456789'' ! (n mod 10)])"

declare decimal.simps [simp del]

subsection \<open>Arrays\<close>

text \<open>
  \<^verbatim>\<open>Array.prototype.sort(cmp)\<close> is stable, and for a comparator that orders its
  arguments consistently the result is the one stable arrangement in which no element is
  followed by a smaller one. \<open>sortBy\<close> computes it by stable insertion: an element is put
  in front of the first later element \<open>y\<close> with \<open>cmp x y \<le> 0\<close>.
\<close>

fun insertBy :: "('a \<Rightarrow> 'a \<Rightarrow> int) \<Rightarrow> 'a \<Rightarrow> 'a list \<Rightarrow> 'a list" where
  "insertBy cmp x [] = [x]"
| "insertBy cmp x (y # ys) = (if cmp x y \<le> 0 then x # y # ys else y # insertBy cmp x ys)"

definition sortBy :: "('a \<Rightarrow> 'a \<Rightarrow> int) \<Rightarrow> 'a list \<Rightarrow> 'a list" where
  "sortBy cmp xs = foldr (insertBy cmp) xs []"

text \<open>\<^verbatim>\<open>Array.from(new Set(xs))\<close>: a set keeps the first occurrence of every value, in
  insertion order.\<close>

primrec addAll :: "'a list \<Rightarrow> 'a list \<Rightarrow> 'a list" where
  "addAll seen [] = seen"
| "addAll seen (x # xs) = addAll (if x \<in> set seen then seen else seen @ [x]) xs"

definition arrayFromSet :: "'a list \<Rightarrow> 'a list" where
  "arrayFromSet xs = addAll [] xs"

subsection \<open>Parsed JSON\<close>

text \<open>
  A value as \<^verbatim>\<open>JSON.parse\<close> and \<^verbatim>\<open>response.json()\<close> deliver it. A number is given by
  its exact value. An object is the list of its members; \<open>map_of\<close> reads a member.
  \<open>None\<close> of type \<open>json option\<close> is \<^verbatim>\<open>undefined\<close>.
\<close>

datatype json =
    JNull
  | JBool bool
  | JNum rat
  | JStr string
  | JArr "json list"
  | JObj "(string \<times> json) list"

datatype exn = NetworkError | SyntaxError | TypeError | EmptyResponse

text \<open>Truthiness, as \<^verbatim>\<open>&&\<close>, \<^verbatim>\<open>!\<close> and \<^verbatim>\<open>if\<close> test it.\<close>

fun truthy :: "json option \<Rightarrow> bool" where
  "truthy None = False"
| "truthy (Some JNull) = False"
| "truthy (Some (JBool b)) = b"
| "truthy (Some (JNum q)) = (q \<noteq> 0)"
| "truthy (Some (JStr s)) = (s \<noteq> [])"
| "truthy (Some (JArr xs)) = True"
| "truthy (Some (JObj kvs)) = True"

text \<open>
  \<^verbatim>\<open>v.key\<close> for a key that no built-in prototype defines (\<open>choices\<close>, \<open>message\<close>,
  \<open>content\<close>): reading it from \<^verbatim>\<open>undefined\<close> or \<^verbatim>\<open>null\<close> throws, an object gives its
  member, any other value gives \<^verbatim>\<open>undefined\<close>.
\<close>

fun getProp :: "json option \<Rightarrow> string \<Rightarrow> exn + json option" where
  "getProp None key = Inl TypeError"
| "getProp (Some JNull) key = Inl TypeError"
| "getProp (Some (JObj kvs)) key = Inr (map_of kvs key)"
| "getProp (Some v) key = Inr None"

text \<open>\<^verbatim>\<open>v.length\<close> of a truthy value.\<close>

fun lengthOf :: "json option \<Rightarrow> json option" where
  "lengthOf (Some (JArr xs)) = Some (JNum (of_nat (length xs)))"
| "lengthOf (Some (JStr s)) = Some (JNum (of_nat (length s)))"
| "lengthOf (Some (JObj kvs)) = map_of kvs ''length''"
| "lengthOf v = None"

text \<open>\<^verbatim>\<open>v[0]\<close> of a truthy value.\<close>

fun first :: "json option \<Rightarrow> json option" where
  "first (Some (JArr (x # xs))) = Some x"
| "first (Some (JStr (c # cs))) = Some (JStr [c])"
| "first (Some (JObj kvs)) = map_of kvs ''0''"
| "first v = None"

text \<open>\<^verbatim>\<open>content?.trim()\<close>: \<^verbatim>\<open>undefined\<close> for a missing or null content, the trimmed text
  of a string, and a type error for any other value, which has no method \<open>trim\<close>.\<close>

fun trimmed :: "json option \<Rightarrow> exn + string option" where
  "trimmed None = Inr None"
| "trimmed (Some JNull) = Inr None"
| "trimmed (Some (JStr s)) = Inr (Some (trim s))"
| "trimmed (Some v) = Inl TypeError"

text \<open>
  \<^verbatim>\<open>ranking.indexOf(n)\<close> for a positive integer \<open>n\<close>. An array is searched with strict
  equality, which only a number of the same value satisfies; a string is searched for
  the decimal digits of \<open>n\<close>; every other value has no method \<open>indexOf\<close>.
\<close>

fun arrayIndexOf :: "'a list \<Rightarrow> 'a \<Rightarrow> int" where
  "arrayIndexOf [] v = -1"
| "arrayIndexOf (x # xs) v =
     (if x = v then 0 else (let r = arrayIndexOf xs v in if r < 0 then -1 else r + 1))"

fun indexOf :: "json \<Rightarrow> nat \<Rightarrow> exn + int" where
  "indexOf (JArr xs) n = Inr (arrayIndexOf xs (JNum (of_nat n)))"
| "indexOf (JStr s) n = Inr (strIndexOf s (decimal n))"
| "indexOf v n = Inl TypeError"

text \<open>\<^verbatim>\<open>xs.map(f)\<close> for a callback that may throw: the first exception ends the loop.\<close>

fun mapThrow :: "('a \<Rightarrow> exn + 'b) \<Rightarrow> 'a list \<Rightarrow> exn + 'b list" where
  "mapThrow f [] = Inr []"
| "mapThrow f (x # xs) =
     (case f x of
        Inl e \<Rightarrow> Inl e
      | Inr y \<Rightarrow> (case mapThrow f xs of Inl e \<Rightarrow> Inl e | Inr ys \<Rightarrow> Inr (y # ys)))"

section \<open>The opportunity catalog\<close>

text \<open>
  Modelled from the spec: the module \<^verbatim>\<open>data/opportunities\<close>, which declares the catalog
  \<open>allOpportunities\<close> and its textual summary \<open>opportunitiesList\<close>, is not among the
  sources. An opportunity has the fields of the spec's data model that the ranking and
  the filter read; \<open>skills\<close> and \<open>interests\<close> are present in every record; a missing
  date is \<open>None\<close>. The catalog and its summary are parameters of every function that
  reads them.
\<close>

record opportunity =
  ident :: int
  title :: string
  description :: string
  location :: string
  skills :: "string list"
  interests :: "string list"
  date :: "string option"
  startDate :: "string option"

section \<open>Ranking engine\<close>

subsection \<open>Local scoring: \<open>simpleRecommendations\<close>\<close>

definition score :: "string list \<Rightarrow> opportunity \<Rightarrow> nat" where
  "score normalized opportunity =
     foldl (\<lambda>acc interest. if toLowerCase interest \<in> set normalized then acc + 1 else acc)
       0 (interests opportunity)"

definition simpleRecommendations :: "opportunity list \<Rightarrow> string list \<Rightarrow> opportunity list" where
  "simpleRecommendations allOpportunities userInterests =
     (if userInterests = [] then allOpportunities
      else
        (let normalized = map toLowerCase userInterests
         in map snd
              (sortBy (\<lambda>a b. int (fst b) - int (fst a))
                 (map (\<lambda>opportunity. (score normalized opportunity, opportunity))
                    allOpportunities))))"

subsection \<open>Remote ranking: \<open>getAIRecommendations\<close>\<close>

text \<open>
  What \<^verbatim>\<open>fetch\<close> and \<^verbatim>\<open>response.json()\<close> deliver: the request is rejected, or a
  response arrives with its status and its body, \<open>None\<close> for a body that is not JSON.
\<close>

datatype fetched = Rejected | Response nat "json option"

text \<open>
  A listed opportunity: the remote path returns copies \<^verbatim>\<open>{...opportunity, rank}\<close>, every
  other path returns the catalog's records, which have no \<open>rank\<close>.
\<close>

type_synonym listing = "opportunity \<times> int option"

definition plain :: "opportunity \<Rightarrow> listing" where
  "plain opportunity = (opportunity, None)"

definition userPrompt :: "string \<Rightarrow> string list \<Rightarrow> string" where
  "userPrompt opportunitiesList userInterests =
     ''Interests: '' @ join '', '' userInterests @ [CHR 0x0A, CHR 0x0A]
       @ ''Opportunities: '' @ opportunitiesList @ [CHR 0x0A]
       @ ''Rank them from most to least relevant and reply with the JSON array only.''"

text \<open>
  The \<^verbatim>\<open>try\<close> block up to \<^verbatim>\<open>JSON.parse(raw)\<close>: \<open>Inl\<close> when a statement throws,
  \<open>Inr None\<close> when the test on \<open>data.choices\<close> fails and the block is left without a
  result, \<open>Inr (Some ranking)\<close> with the parsed content otherwise.
\<close>

definition parsedRanking :: "(string \<Rightarrow> json option) \<Rightarrow> fetched \<Rightarrow> exn + json option" where
  "parsedRanking parse response =
     (case response of
        Rejected \<Rightarrow> Inl NetworkError
      | Response status None \<Rightarrow> Inl SyntaxError
      | Response status (Some data) \<Rightarrow>
          (case getProp (Some data) ''choices'' of
             Inl e \<Rightarrow> Inl e
           | Inr choices \<Rightarrow>
               if truthy choices \<and> truthy (lengthOf choices) then
                 (case getProp (first choices) ''message'' of
                    Inl e \<Rightarrow> Inl e
                  | Inr message \<Rightarrow>
                      (case getProp message ''content'' of
                         Inl e \<Rightarrow> Inl e
                       | Inr content \<Rightarrow>
                           (case trimmed content of
                              Inl e \<Rightarrow> Inl e
                            | Inr None \<Rightarrow> Inl EmptyResponse
                            | Inr (Some raw) \<Rightarrow>
                                if raw = [] then Inl EmptyResponse
                                else
                                  (case parse raw of
                                     None \<Rightarrow> Inl SyntaxError
                                   | Some ranking \<Rightarrow> Inr (Some ranking)))))
               else Inr None))"

text \<open>The \<^verbatim>\<open>map\<close>, \<^verbatim>\<open>filter\<close>, \<^verbatim>\<open>sort\<close>, \<^verbatim>\<open>slice(0, 3)\<close> chain over the catalog.\<close>

definition rankedTop :: "opportunity list \<Rightarrow> json \<Rightarrow> exn + listing list" where
  "rankedTop allOpportunities ranking =
     (case mapThrow
             (\<lambda>(index, opportunity).
                case indexOf ranking (index + 1) of
                  Inl e \<Rightarrow> Inl e
                | Inr r \<Rightarrow> Inr (opportunity, r))
             (enumerate 0 allOpportunities) of
        Inl e \<Rightarrow> Inl e
      | Inr items \<Rightarrow>
          Inr (map (\<lambda>(opportunity, r). (opportunity, Some r))
                 (take 3
                    (sortBy (\<lambda>a b. snd a - snd b)
                       (filter (\<lambda>item. snd item \<ge> 0) items)))))"

text \<open>
  \<open>getAIRecommendations\<close> returns its result together with the requests it posted. A
  request is represented by its user prompt, the one part of it that varies; the answer
  of the remote service to a request is given by \<open>fetch\<close>.
\<close>

definition getAIRecommendations ::
  "(string \<Rightarrow> json option) \<Rightarrow> (string \<Rightarrow> fetched) \<Rightarrow> string \<Rightarrow> opportunity list \<Rightarrow>
     string list \<Rightarrow> listing list \<times> string list" where
  "getAIRecommendations parse fetch opportunitiesList allOpportunities userInterests =
     (let request = userPrompt opportunitiesList userInterests;
          attempt =
            (case parsedRanking parse (fetch request) of
               Inl e \<Rightarrow> Inl e
             | Inr None \<Rightarrow> Inr None
             | Inr (Some ranking) \<Rightarrow>
                 (case rankedTop allOpportunities ranking of
                    Inl e \<Rightarrow> Inl e
                  | Inr ranked \<Rightarrow> Inr (Some ranked)))
      in case attempt of
           Inr (Some ranked) \<Rightarrow> (ranked, [request])
         | _ \<Rightarrow> (map plain (simpleRecommendations allOpportunities userInterests), [request]))"

subsection \<open>\<open>recommendOpportunities\<close>\<close>

definition recommendOpportunities ::
  "(string \<Rightarrow> json option) \<Rightarrow> (string \<Rightarrow> fetched) \<Rightarrow> string \<Rightarrow> opportunity list \<Rightarrow>
     string list \<Rightarrow> listing list \<times> string list" where
  "recommendOpportunities parse fetch opportunitiesList allOpportunities userInterests =
     (if userInterests = [] then (map plain allOpportunities, [])
      else
        (let (recommended, requests) =
               getAIRecommendations parse fetch opportunitiesList allOpportunities userInterests
         in (if recommended \<noteq> [] then recommended else map plain allOpportunities, requests)))"

subsection \<open>The failures and the well-formed responses of the remote service\<close>

text \<open>
  The count of case-insensitive matches between an opportunity's interests and the
  profile's interests: the number of the opportunity's interests that equal one of the
  profile's when case is ignored.
\<close>

definition matchCount :: "string list \<Rightarrow> opportunity \<Rightarrow> nat" where
  "matchCount userInterests opportunity =
     length (filter (\<lambda>interest. \<exists>u \<in> set userInterests. toLowerCase u = toLowerCase interest)
               (interests opportunity))"

text \<open>The text at \<open>choices[0].message.content\<close> of a response body whose \<open>choices\<close> is
  an array.\<close>

fun contentOf :: "json \<Rightarrow> string option" where
  "contentOf (JObj kvs) =
     (case map_of kvs ''choices'' of
        Some (JArr (JObj choice # rest)) \<Rightarrow>
          (case map_of choice ''message'' of
             Some (JObj message) \<Rightarrow>
               (case map_of message ''content'' of Some (JStr c) \<Rightarrow> Some c | _ \<Rightarrow> None)
           | _ \<Rightarrow> None)
      | _ \<Rightarrow> None)"
| "contentOf v = None"

text \<open>
  What a response delivers. Its first choice is the first element of \<open>choices\<close> when that
  is an array with an element, and the member \<open>0\<close> when it is an object with a truthy
  member \<open>length\<close>; a body that is no object, or whose \<open>choices\<close> is missing, null, empty
  or any other value, has none. The content is the text under \<open>message.content\<close> of a
  first choice that is an object with an object \<open>message\<close>. The delivered ranking is the
  value that the trimmed content parses to, when the content is not empty.
\<close>

fun firstChoice :: "json \<Rightarrow> json option" where
  "firstChoice (JObj kvs) =
     (case map_of kvs ''choices'' of
        Some (JArr (choice # rest)) \<Rightarrow> Some choice
      | Some (JObj members) \<Rightarrow>
          if truthy (map_of members ''length'') then map_of members ''0'' else None
      | _ \<Rightarrow> None)"
| "firstChoice v = None"

definition contentText :: "json \<Rightarrow> string option" where
  "contentText data =
     (case firstChoice data of
        Some (JObj choice) \<Rightarrow>
          (case map_of choice ''message'' of
             Some (JObj message) \<Rightarrow>
               (case map_of message ''content'' of Some (JStr c) \<Rightarrow> Some c | _ \<Rightarrow> None)
           | _ \<Rightarrow> None)
      | _ \<Rightarrow> None)"

definition delivered :: "(string \<Rightarrow> json option) \<Rightarrow> fetched \<Rightarrow> json option" where
  "delivered parse response =
     (case response of
        Rejected \<Rightarrow> None
      | Response status None \<Rightarrow> None
      | Response status (Some data) \<Rightarrow>
          (case contentText data of
             None \<Rightarrow> None
           | Some c \<Rightarrow> if trim c = [] then None else parse (trim c)))"

text \<open>
  A failed ranking call: the request is rejected (a network error), the body is not
  JSON, the body has no first choice (\<open>choices\<close> is missing, null or empty), the first
  choice has no text content, the content is empty once trimmed or is not JSON, or the
  content parses to a value that is neither an array nor a string, which has no method
  \<open>indexOf\<close>. These are the cases in which a statement of the \<^verbatim>\<open>try\<close> block throws or
  the block is left without a result. The status of the response is no part of it.
\<close>

definition remoteFailed :: "(string \<Rightarrow> json option) \<Rightarrow> fetched \<Rightarrow> bool" where
  "remoteFailed parse response =
     (case delivered parse response of
        None \<Rightarrow> True
      | Some (JArr xs) \<Rightarrow> False
      | Some (JStr s) \<Rightarrow> False
      | Some v \<Rightarrow> True)"

text \<open>A failed ranking call as the specification lists the failures: those above, and
  every response whose status is not in the range 200 to 299.\<close>

definition statusOk :: "fetched \<Rightarrow> bool" where
  "statusOk response =
     (case response of Rejected \<Rightarrow> False | Response status body \<Rightarrow> 200 \<le> status \<and> status \<le> 299)"

definition remoteFailedOrBadStatus :: "(string \<Rightarrow> json option) \<Rightarrow> fetched \<Rightarrow> bool" where
  "remoteFailedOrBadStatus parse response = (remoteFailed parse response \<or> \<not> statusOk response)"

text \<open>A well-formed response: its content is a non-empty text that parses to the array
  of the integers \<open>ks\<close>.\<close>

definition indexList :: "int list \<Rightarrow> json" where
  "indexList ks = JArr (map (\<lambda>k. JNum (of_int k)) ks)"

fun wellFormed :: "(string \<Rightarrow> json option) \<Rightarrow> fetched \<Rightarrow> int list \<Rightarrow> bool" where
  "wellFormed parse (Response status (Some data)) ks =
     (case contentOf data of
        None \<Rightarrow> False
      | Some c \<Rightarrow> trim c \<noteq> [] \<and> parse (trim c) = Some (indexList ks))"
| "wellFormed parse response ks = False"

text \<open>The catalog positions a response names, in the order of their first mention:
  the indices from 1 to the catalog's length, each once.\<close>

definition namedPositions :: "nat \<Rightarrow> int list \<Rightarrow> int list" where
  "namedPositions n ks = filter (\<lambda>k. 1 \<le> k \<and> k \<le> int n) (arrayFromSet ks)"

text \<open>The rows that \<open>getAIRecommendations\<close> builds for an array of integers: every
  catalog entry with the position of its 1-based index in the array.\<close>

definition rankedRows :: "opportunity list \<Rightarrow> int list \<Rightarrow> (opportunity \<times> int) list" where
  "rankedRows allOpportunities ks =
     map (\<lambda>i. (allOpportunities ! i, arrayIndexOf ks (int i + 1))) [0..<length allOpportunities]"

section \<open>Filter engine\<close>

subsection \<open>\<open>filteredOpportunities\<close>\<close>

text \<open>
  The filter criteria are the state of the page: the search box, the three dropdowns,
  whose value \<open>all\<close> stands for no constraint, and the two date inputs, empty when no
  date is chosen.
\<close>

record criteria =
  searchTerm :: string
  locationFilter :: string
  skillFilter :: string
  interestFilter :: string
  dateRangeStart :: string
  dateRangeEnd :: string

text \<open>
  Dates are read by \<^verbatim>\<open>new Date(text)\<close> and cut to their day by
  \<^verbatim>\<open>setHours(0, 0, 0, 0)\<close>. The parameter \<open>dayOf\<close> stands for both steps: it gives the
  time stamp they leave, which is local midnight of the local day on which the instant
  read from the text falls, and \<open>None\<close> for a text that \<^verbatim>\<open>Date\<close> cannot read, whose time
  stamp is \<^verbatim>\<open>NaN\<close> and compares false with everything. Which instant a text is read as
  (a text with a date only is read in universal time, others in local time) is left to
  \<open>dayOf\<close>; the opportunity's date and both bounds are read by the same \<open>dayOf\<close>.
\<close>

definition oppDateString :: "opportunity \<Rightarrow> string option" where
  "oppDateString opportunity =
     (case date opportunity of
        None \<Rightarrow> startDate opportunity
      | Some s \<Rightarrow> if s \<noteq> [] then Some s else startDate opportunity)"

definition matchesDate :: "(string \<Rightarrow> int option) \<Rightarrow> criteria \<Rightarrow> opportunity \<Rightarrow> bool" where
  "matchesDate dayOf c opportunity =
     (case oppDateString opportunity of
        None \<Rightarrow> True
      | Some s \<Rightarrow>
          if s = [] then True
          else
            (case dayOf s of
               None \<Rightarrow> True
             | Some oppDate \<Rightarrow>
                 (let afterStart =
                        (if dateRangeStart c \<noteq> [] then
                           (case dayOf (dateRangeStart c) of
                              None \<Rightarrow> True
                            | Some startDay \<Rightarrow> \<not> oppDate < startDay)
                         else True)
                  in if afterStart \<and> dateRangeEnd c \<noteq> [] then
                       (case dayOf (dateRangeEnd c) of
                          None \<Rightarrow> True
                        | Some endDay \<Rightarrow> \<not> oppDate > endDay)
                     else afterStart)))"

definition passesFilter :: "(string \<Rightarrow> int option) \<Rightarrow> criteria \<Rightarrow> opportunity \<Rightarrow> bool" where
  "passesFilter dayOf c opportunity =
     (let normalizedSearch = toLowerCase (trim (searchTerm c));
          matchesSearch =
            (normalizedSearch = []
             \<or> strIncludes (toLowerCase (title opportunity)) normalizedSearch
             \<or> strIncludes (toLowerCase (description opportunity)) normalizedSearch
             \<or> list_ex (\<lambda>skill. strIncludes (toLowerCase skill) normalizedSearch)
                  (skills opportunity))
      in if \<not> matchesSearch then False
         else
           (let matchesLocation =
                  (locationFilter c = ''all'' \<or> location opportunity = locationFilter c);
                matchesSkill =
                  (skillFilter c = ''all''
                   \<or> list_ex (\<lambda>skill. toLowerCase skill = skillFilter c) (skills opportunity));
                matchesInterestFilter =
                  (interestFilter c = ''all''
                   \<or> list_ex (\<lambda>i. toLowerCase i = toLowerCase (interestFilter c))
                        (interests opportunity))
            in matchesLocation \<and> matchesSkill \<and> matchesInterestFilter
               \<and> matchesDate dayOf c opportunity))"

record scored =
  opportunity :: opportunity
  index :: nat
  interestOverlap :: nat
  skillOverlap :: nat

definition compareScored :: "scored \<Rightarrow> scored \<Rightarrow> int" where
  "compareScored a b =
     (if interestOverlap b \<noteq> interestOverlap a
        then int (interestOverlap b) - int (interestOverlap a)
      else if skillOverlap b \<noteq> skillOverlap a
        then int (skillOverlap b) - int (skillOverlap a)
      else int (index a) - int (index b))"

text \<open>The array \<open>scored\<close> before and after \<^verbatim>\<open>scored.sort\<close>, and the memoised result.\<close>

definition scoredRows ::
  "(string \<Rightarrow> int option) \<Rightarrow> opportunity list \<Rightarrow> criteria \<Rightarrow> string list \<Rightarrow> string list \<Rightarrow>
     scored list" where
  "scoredRows dayOf allOpportunities c userInterests userSkills =
     (let normalizedUserInterests = map toLowerCase userInterests;
          normalizedUserSkills = map toLowerCase userSkills;
          userInterestSet = set normalizedUserInterests;
          userSkillSet = set normalizedUserSkills
      in map (\<lambda>(i, opp).
                \<lparr>opportunity = opp, index = i,
                 interestOverlap =
                   length (filter (\<lambda>interest. interest \<in> userInterestSet)
                             (map toLowerCase (interests opp))),
                 skillOverlap =
                   length (filter (\<lambda>skill. skill \<in> userSkillSet)
                             (map toLowerCase (skills opp)))\<rparr>)
           (filter (\<lambda>(i, opp). passesFilter dayOf c opp) (enumerate 0 allOpportunities)))"

definition sortedRows ::
  "(string \<Rightarrow> int option) \<Rightarrow> opportunity list \<Rightarrow> criteria \<Rightarrow> string list \<Rightarrow> string list \<Rightarrow>
     scored list" where
  "sortedRows dayOf allOpportunities c userInterests userSkills =
     sortBy compareScored (scoredRows dayOf allOpportunities c userInterests userSkills)"

definition filteredOpportunities ::
  "(string \<Rightarrow> int option) \<Rightarrow> opportunity list \<Rightarrow> criteria \<Rightarrow> string list \<Rightarrow> string list \<Rightarrow>
     opportunity list" where
  "filteredOpportunities dayOf allOpportunities c userInterests userSkills =
     map opportunity (sortedRows dayOf allOpportunities c userInterests userSkills)"

subsection \<open>The facets of the filter\<close>












text \<open>The overlap counts of the secondary ordering.\<close>

definition skillMatchCount :: "string list \<Rightarrow> opportunity \<Rightarrow> nat" where
  "skillMatchCount userSkills opp =
     length (filter (\<lambda>skill. \<exists>u \<in> set userSkills. toLowerCase u = toLowerCase skill) (skills opp))"

definition ranksBefore :: "scored \<Rightarrow> scored \<Rightarrow> bool" where
  "ranksBefore a b =
     (interestOverlap a > interestOverlap b
      \<or> (interestOverlap a = interestOverlap b
          \<and> (skillOverlap a > skillOverlap b
              \<or> (skillOverlap a = skillOverlap b \<and> index a < index b))))"

text \<open>The row of the catalog entry at position \<open>i\<close>.\<close>

definition rowOf :: "opportunity list \<Rightarrow> string list \<Rightarrow> string list \<Rightarrow> nat \<Rightarrow> scored" where
  "rowOf allOpportunities userInterests userSkills i =
     \<lparr>opportunity = allOpportunities ! i, index = i,
      interestOverlap = matchCount userInterests (allOpportunities ! i),
      skillOverlap = skillMatchCount userSkills (allOpportunities ! i)\<rparr>"

section \<open>Favourites\<close>

text \<open>
  A favourite is an opportunity id as the page holds it: a number or a string. The type
  \<open>'n\<close> stands for the numbers other than \<^verbatim>\<open>NaN\<close>, compared by value, and \<open>toNumber\<close>
  for \<^verbatim>\<open>Number\<close> on strings, with \<open>None\<close> for \<^verbatim>\<open>NaN\<close>. The notification that a toggle
  shows is not part of the model.
\<close>

datatype 'n favourite = NumberId 'n | StringId string

definition normalizeFavoriteId :: "(string \<Rightarrow> 'n option) \<Rightarrow> 'n favourite \<Rightarrow> 'n favourite" where
  "normalizeFavoriteId toNumber v =
     (case v of
        NumberId n \<Rightarrow> NumberId n
      | StringId s \<Rightarrow> (case toNumber s of None \<Rightarrow> StringId s | Some n \<Rightarrow> NumberId n))"

text \<open>What the storage holds under the key \<open>favorites\<close>: an array of ids, or anything
  else (nothing, a text that is not JSON, a value that is not an array).\<close>

datatype 'n stored = NoArray | StoredArray "'n favourite list"

definition loadFavorites :: "(string \<Rightarrow> 'n option) \<Rightarrow> 'n stored \<Rightarrow> 'n favourite list" where
  "loadFavorites toNumber storage =
     (case storage of
        NoArray \<Rightarrow> []
      | StoredArray parsed \<Rightarrow> arrayFromSet (map (normalizeFavoriteId toNumber) parsed))"

definition handleToggleFavorite ::
  "(string \<Rightarrow> 'n option) \<Rightarrow> 'n favourite \<Rightarrow> 'n favourite list \<Rightarrow> 'n favourite list" where
  "handleToggleFavorite toNumber favId current =
     (let idValue = normalizeFavoriteId toNumber favId;
          normalizedCurrent = map (normalizeFavoriteId toNumber) current;
          isFavorited = (idValue \<in> set normalizedCurrent);
          next = (if isFavorited then filter (\<lambda>fav. fav \<noteq> idValue) normalizedCurrent
                  else normalizedCurrent @ [idValue])
      in arrayFromSet next)"

text \<open>Membership of an id in the favourites, ids taken in their normal form.\<close>

definition isFavorited :: "(string \<Rightarrow> 'n option) \<Rightarrow> 'n favourite list \<Rightarrow> 'n favourite \<Rightarrow> bool" where
  "isFavorited toNumber current favId =
     (normalizeFavoriteId toNumber favId \<in> set (map (normalizeFavoriteId toNumber) current))"

section \<open>The recommendations of the opportunities page\<close>

text \<open>
  \<open>OpportunitiesPage\<close> loads its recommendations in an effect that depends on the
  profile. Every run of the effect has a variable \<open>ignore\<close> of its own, which the
  clean-up of that run sets. React runs the clean-up of the previous run before the next
  run and when the page is unmounted. The state keeps the variables of all runs, oldest
  first; a run is named by its position in that list.
\<close>

record page =
  recommended :: "listing list"
  loading :: bool
  error :: string
  ignore :: "bool list"

datatype event =
    ProfileChanged
  | Resolved nat "listing list"
  | Thrown nat
  | Unmounted

definition initialPage :: page where
  "initialPage = \<lparr>recommended = [], loading = True, error = [], ignore = []\<rparr>"

definition cleanup :: "bool list \<Rightarrow> bool list" where
  "cleanup flags = (if flags = [] then [] else butlast flags @ [True])"

fun step :: "opportunity list \<Rightarrow> page \<Rightarrow> event \<Rightarrow> page" where
  "step allOpportunities s ProfileChanged =
     s\<lparr>ignore := cleanup (ignore s) @ [False], loading := True, error := []\<rparr>"
| "step allOpportunities s (Resolved run results) =
     (if run < length (ignore s) \<and> \<not> ignore s ! run
      then s\<lparr>recommended := results, loading := False\<rparr>
      else s)"
| "step allOpportunities s (Thrown run) =
     (if run < length (ignore s) \<and> \<not> ignore s ! run
      then s\<lparr>recommended := map plain allOpportunities,
             error := ''We had trouble loading AI recommendations, so we are showing everything instead.'',
             loading := False\<rparr>
      else s)"
| "step allOpportunities s Unmounted = s\<lparr>ignore := cleanup (ignore s)\<rparr>"

definition run :: "opportunity list \<Rightarrow> event list \<Rightarrow> page" where
  "run allOpportunities events = foldl (step allOpportunities) initialPage events"

text \<open>Every run of the effect but the latest has been cleaned up.\<close>

definition superseded :: "page \<Rightarrow> bool" where
  "superseded s = (\<forall>k. Suc k < length (ignore s) \<longrightarrow> ignore s ! k)"

section \<open>Saving the profile\<close>

record profile =
  profileName :: string
  profileEmail :: "string option"
  profilePassword :: "string option"
  profileStory :: "string option"
  profileInterests :: "string list"
  profileSkills :: "string list option"

subsection \<open>The form with a comma-separated interests field: \<open>ProfilePage\<close>\<close>

text \<open>\<^verbatim>\<open>text.split(',')\<close>.\<close>

fun splitOn :: "char \<Rightarrow> string \<Rightarrow> string list" where
  "splitOn sep [] = [[]]"
| "splitOn sep (c # cs) =
     (if c = sep then [] # splitOn sep cs
      else (case splitOn sep cs of [] \<Rightarrow> [[c]] | piece # pieces \<Rightarrow> (c # piece) # pieces))"

definition interestList :: "string \<Rightarrow> string list" where
  "interestList text = filter (\<lambda>interest. interest \<noteq> []) (map trim (splitOn (CHR '','') text))"

definition orDefault :: "string \<Rightarrow> string \<Rightarrow> string" where
  "orDefault text fallback = (if text \<noteq> [] then text else fallback)"

definition submitProfilePage :: "string \<Rightarrow> string \<Rightarrow> profile" where
  "submitProfilePage nameText interestsText =
     \<lparr>profileName = orDefault (trim nameText) ''Guest User'',
      profileEmail = None, profilePassword = None, profileStory = None,
      profileInterests = interestList interestsText,
      profileSkills = None\<rparr>"

subsection \<open>The form with removable tags: \<open>Profile\<close>\<close>

record form =
  nameField :: string
  emailField :: string
  passwordField :: string
  storyField :: string
  interestTags :: "string list"
  skillTags :: "string list"

datatype input =
    TypeName string
  | TypeEmail string
  | TypePassword string
  | TypeStory string
  | RemoveInterest string
  | RemoveSkill string

definition openForm :: "profile \<Rightarrow> form" where
  "openForm p =
     \<lparr>nameField = profileName p,
      emailField = (case profileEmail p of None \<Rightarrow> [] | Some e \<Rightarrow> e),
      passwordField = (case profilePassword p of None \<Rightarrow> [] | Some w \<Rightarrow> w),
      storyField = (case profileStory p of None \<Rightarrow> [] | Some t \<Rightarrow> t),
      interestTags = profileInterests p,
      skillTags = (case profileSkills p of None \<Rightarrow> [] | Some ss \<Rightarrow> ss)\<rparr>"

fun edit :: "form \<Rightarrow> input \<Rightarrow> form" where
  "edit f (TypeName t) = f\<lparr>nameField := t\<rparr>"
| "edit f (TypeEmail t) = f\<lparr>emailField := t\<rparr>"
| "edit f (TypePassword t) = f\<lparr>passwordField := t\<rparr>"
| "edit f (TypeStory t) = f\<lparr>storyField := t\<rparr>"
| "edit f (RemoveInterest interestToRemove) =
     f\<lparr>interestTags := filter (\<lambda>interest. interest \<noteq> interestToRemove) (interestTags f)\<rparr>"
| "edit f (RemoveSkill skillToRemove) =
     f\<lparr>skillTags := filter (\<lambda>skill. skill \<noteq> skillToRemove) (skillTags f)\<rparr>"

definition submitProfile :: "string \<Rightarrow> string \<Rightarrow> form \<Rightarrow> profile" where
  "submitProfile fallbackName fallbackEmail f =
     \<lparr>profileName = orDefault (trim (nameField f)) fallbackName,
      profileEmail = Some (orDefault (trim (emailField f)) fallbackEmail),
      profilePassword = Some (passwordField f),
      profileStory = Some (trim (storyField f)),
      profileInterests = interestTags f,
      profileSkills = Some (skillTags f)\<rparr>"

text \<open>The story form of the same page saves the profile it was given with the trimmed
  story.\<close>

definition saveStory :: "profile \<Rightarrow> string \<Rightarrow> profile" where
  "saveStory p storyText = p\<lparr>profileStory := Some (trim storyText)\<rparr>"

text \<open>The tags that a sequence of inputs removes from the interests.\<close>

fun removedInterests :: "input list \<Rightarrow> string list" where
  "removedInterests [] = []"
| "removedInterests (RemoveInterest interestToRemove # inputs) =
     interestToRemove # removedInterests inputs"
| "removedInterests (i # inputs) = removedInterests inputs"

text \<open>No two entries are equal when case is ignored.\<close>

definition distinctIgnoringCase :: "string list \<Rightarrow> bool" where
  "distinctIgnoringCase xs = distinct (map toLowerCase xs)"

section \<open>Example data\<close>

definition exampleOpportunity :: "int \<Rightarrow> string \<Rightarrow> string list \<Rightarrow> string list \<Rightarrow> opportunity" where
  "exampleOpportunity i t ss ints =
     \<lparr>ident = i, title = t, description = ''Help out'', location = ''Remote'',
      skills = ss, interests = ints, date = None, startDate = None\<rparr>"

definition beach :: opportunity where
  "beach = exampleOpportunity 1 ''Beach Cleanup'' [''Teamwork''] [''Environment'']"

definition tutor :: opportunity where
  "tutor = exampleOpportunity 2 ''Tutor'' [''Teaching''] [''education'']"

definition shelter :: opportunity where
  "shelter = exampleOpportunity 3 ''Animal Shelter'' [''Animal Care''] [''animals'', ''environment'']"

definition pantry :: opportunity where
  "pantry = exampleOpportunity 4 ''Food Pantry'' [''Logistics''] [''community'']"

definition clinic :: opportunity where
  "clinic = (exampleOpportunity 5 ''Health Clinic'' [''First Aid'', ''TEACHING''] [''Health''])
              \<lparr>date := Some ''2025-03-05''\<rparr>"

text \<open>An opportunity whose interest \<open>Ecologie\<close> begins with the capital U+00C9, E with
  acute accent.\<close>

definition eco :: opportunity where
  "eco = exampleOpportunity 6 ''Eco Club'' [''Gardening''] [CHR 0xC9 # ''cologie'']"

text \<open>A reading of three dates, as day numbers, and a set of criteria.\<close>

definition exampleDay :: "string \<Rightarrow> int option" where
  "exampleDay = map_of [(''2025-03-01'', 20148), (''2025-03-05'', 20152), (''2025-03-06'', 20153)]"


definition noCriteria :: criteria where
  "noCriteria =
     \<lparr>searchTerm = [], locationFilter = ''all'', skillFilter = ''all'',
      interestFilter = ''all'', dateRangeStart = [], dateRangeEnd = []\<rparr>"


text \<open>A response whose first choice carries the given content, and a stand-in for
  \<^verbatim>\<open>JSON.parse\<close> that reads one text as an array of integers.\<close>

definition replyWith :: "nat \<Rightarrow> string \<Rightarrow> fetched" where
  "replyWith status content =
     Response status
       (Some (JObj [(''choices'',
          JArr [JObj [(''message'',
            JObj [(''role'', JStr ''assistant''), (''content'', JStr content)])]])]))"

definition parseOnly :: "string \<Rightarrow> int list \<Rightarrow> string \<Rightarrow> json option" where
  "parseOnly text ks raw = (if raw = text then Some (indexList ks) else None)"

definition numberOnly :: "string \<Rightarrow> int \<Rightarrow> string \<Rightarrow> int option" where
  "numberOnly text n s = (if s = text then Some n else None)"

definition exampleProfile :: profile where
  "exampleProfile =
     \<lparr>profileName = ''Ann'', profileEmail = None, profilePassword = None, profileStory = None,
      profileInterests = [''Art'', ''music'', ''Health''], profileSkills = None\<rparr>"

section \<open>Properties of the ranking engine\<close>

subsection \<open>Sorting and local scoring\<close>

lemma insertBy_insort_key:
  assumes "\<And>x y. (cmp x y \<le> 0) = (f x \<le> f y)"
  shows "insertBy cmp x xs = insort_key f x xs"
  by (induction xs) (simp_all add: assms)

lemma sortBy_sort_key:
  assumes "\<And>x y. (cmp x y \<le> 0) = (f x \<le> f y)"
  shows "sortBy cmp xs = sort_key f xs"
proof -
  have "insertBy cmp = insort_key f"
    by (intro ext) (rule insertBy_insort_key [OF assms])
  then show ?thesis
    by (simp add: sortBy_def sort_key_def)
qed

lemma foldl_count:
  "foldl (\<lambda>acc x. if P x then acc + 1 else acc) (a::nat) xs = a + length (filter P xs)"
  by (induction xs arbitrary: a) simp_all

lemma score_matchCount:
  "score (map toLowerCase us) opp = matchCount us opp"
proof -
  have "(\<lambda>i. toLowerCase i \<in> set (map toLowerCase us))
      = (\<lambda>i. \<exists>u \<in> set us. toLowerCase u = toLowerCase i)"
    by (rule ext) (auto simp: image_iff intro: sym)
  then show ?thesis
    by (simp add: score_def matchCount_def foldl_count)
qed

lemma simple_sorted_form:
  assumes "us \<noteq> []"
  shows "simpleRecommendations all us =
     map snd (sort_key (\<lambda>p. - int (fst p)) (map (\<lambda>opp. (matchCount us opp, opp)) all))"
proof -
  have "sortBy (\<lambda>a b. int (fst b) - int (fst a)) xs = sort_key (\<lambda>p. - int (fst p)) xs"
    for xs :: "(nat \<times> opportunity) list"
    by (rule sortBy_sort_key) auto
  with assms show ?thesis
    by (simp add: simpleRecommendations_def score_matchCount)
qed

lemma simple_mset:
  "mset (simpleRecommendations all us) = mset all"
proof (cases "us = []")
  case True
  then show ?thesis by (simp add: simpleRecommendations_def)
next
  case False
  have "mset (map snd (sort_key (\<lambda>p. - int (fst p)) (map (\<lambda>opp. (matchCount us opp, opp)) all)))
      = mset all"
    by (simp add: image_mset.compositionality comp_def)
  then show ?thesis
    using False by (simp add: simple_sorted_form)
qed

lemma simple_sorted:
  assumes "us \<noteq> []"
  shows "sorted_wrt (\<lambda>a b. matchCount us b \<le> matchCount us a) (simpleRecommendations all us)"
proof -
  let ?rows = "map (\<lambda>opp. (matchCount us opp, opp)) all"
  let ?S = "sort_key (\<lambda>p. - int (fst p)) ?rows"
  have rows: "fst p = matchCount us (snd p)" if "p \<in> set ?S" for p
    using that by auto
  have "sorted (map (\<lambda>p. - int (fst p)) ?S)"
    by (rule sorted_sort_key)
  then have "sorted_wrt (\<lambda>p q. - int (fst p) \<le> - int (fst q)) ?S"
    by (simp add: sorted_map)
  then have "sorted_wrt (\<lambda>p q. matchCount us (snd q) \<le> matchCount us (snd p)) ?S"
    by (rule sorted_wrt_mono_rel [rotated]) (use rows in auto)
  then show ?thesis
    by (simp add: simple_sorted_form [OF assms] sorted_wrt_map)
qed

lemma simple_stable:
  assumes "us \<noteq> []"
  shows "filter (\<lambda>opp. matchCount us opp = k) (simpleRecommendations all us)
       = filter (\<lambda>opp. matchCount us opp = k) all"
proof -
  let ?rows = "map (\<lambda>opp. (matchCount us opp, opp)) all"
  let ?key = "\<lambda>p::nat \<times> opportunity. - int (fst p)"
  let ?S = "sort_key ?key ?rows"
  have "filter (\<lambda>opp. matchCount us opp = k) (map snd ?S)
      = map snd (filter (\<lambda>p. matchCount us (snd p) = k) ?S)"
    by (simp add: filter_map comp_def)
  also have "filter (\<lambda>p. matchCount us (snd p) = k) ?S = filter (\<lambda>p. ?key p = - int k) ?S"
    by (rule filter_cong) auto
  also have "\<dots> = filter (\<lambda>p. ?key p = - int k) ?rows"
    by (rule sort_key_stable)
  also have "\<dots> = filter (\<lambda>p. matchCount us (snd p) = k) ?rows"
    by (rule filter_cong) auto
  also have "map snd \<dots> = filter (\<lambda>opp. matchCount us opp = k) all"
    by (simp add: filter_map comp_def)
  finally show ?thesis
    by (simp add: simple_sorted_form [OF assms])
qed

subsection \<open>Reading the response\<close>

lemma parsed_delivered:
  "parsedRanking parse response = Inr (Some ranking) \<longleftrightarrow> delivered parse response = Some ranking"
proof (cases response)
  case Rejected
  then show ?thesis by (simp add: parsedRanking_def delivered_def)
next
  case (Response status body)
  show ?thesis
  proof (cases body)
    case None
    with Response show ?thesis by (simp add: parsedRanking_def delivered_def)
  next
    case (Some data)
    show ?thesis
    proof (cases data)
      case (JObj kvs)
      with Response Some show ?thesis
        by (auto simp: parsedRanking_def delivered_def contentText_def neq_Nil_conv
            split: option.splits json.splits list.splits sum.splits if_splits)
    qed (use Response Some in \<open>simp_all add: parsedRanking_def delivered_def contentText_def\<close>)
  qed
qed

lemma indexOf_no_method:
  assumes "\<And>xs. ranking \<noteq> JArr xs" and "\<And>s. ranking \<noteq> JStr s"
  shows "indexOf ranking n = Inl TypeError"
  using assms by (cases ranking) auto

lemma rankedTop_no_method:
  assumes "\<And>xs. ranking \<noteq> JArr xs" and "\<And>s. ranking \<noteq> JStr s"
  shows "rankedTop all ranking = (if all = [] then Inr [] else Inl TypeError)"
proof (cases all)
  case Nil
  then show ?thesis by (simp add: rankedTop_def sortBy_def)
next
  case (Cons opp rest)
  then show ?thesis
    by (simp add: rankedTop_def indexOf_no_method [OF assms])
qed

lemma simple_Nil: "simpleRecommendations [] us = []"
  by (simp add: simpleRecommendations_def sortBy_def)

lemma getAI_failed:
  assumes "remoteFailed parse (fetch (userPrompt ol us))"
  shows "fst (getAIRecommendations parse fetch ol all us) = map plain (simpleRecommendations all us)"
proof (cases "parsedRanking parse (fetch (userPrompt ol us))")
  case (Inl e)
  then show ?thesis by (simp add: getAIRecommendations_def)
next
  case (Inr result)
  show ?thesis
  proof (cases result)
    case None
    with Inr show ?thesis by (simp add: getAIRecommendations_def)
  next
    case (Some ranking)
    with Inr have "delivered parse (fetch (userPrompt ol us)) = Some ranking"
      by (simp add: parsed_delivered)
    with assms have "\<And>xs. ranking \<noteq> JArr xs" and "\<And>s. ranking \<noteq> JStr s"
      by (auto simp: remoteFailed_def)
    then have "rankedTop all ranking = (if all = [] then Inr [] else Inl TypeError)"
      by (rule rankedTop_no_method)
    with Inr Some show ?thesis
      by (simp add: getAIRecommendations_def simple_Nil)
  qed
qed

lemma recommend_failed:
  assumes "us \<noteq> []" and "remoteFailed parse (fetch (userPrompt ol us))"
  shows "fst (recommendOpportunities parse fetch ol all us) = map plain (simpleRecommendations all us)"
proof -
  have len: "simpleRecommendations all us = [] \<longleftrightarrow> all = []"
    using simple_mset [of all us] by (metis mset_zero_iff)
  show ?thesis
    using assms(1) getAI_failed [of parse fetch ol us all, OF assms(2)] len
    by (auto simp: recommendOpportunities_def split: prod.splits)
qed

lemma parsedRanking_wellFormed:
  assumes "wellFormed parse response ks"
  shows "parsedRanking parse response = Inr (Some (indexList ks))"
proof -
  from assms obtain status data where r: "response = Response status (Some data)"
    by (cases response; cases "case response of Response s b \<Rightarrow> b") auto
  from assms r obtain c where c: "contentOf data = Some c" "trim c \<noteq> []"
      "parse (trim c) = Some (indexList ks)"
    by (auto split: option.splits)
  from c(1) obtain kvs where d: "data = JObj kvs"
    by (cases data) auto
  from c(1) d show ?thesis
    using c(2,3) r
    by (auto simp: parsedRanking_def split: option.splits json.splits list.splits)
qed

subsection \<open>Positions in the ranking\<close>

lemma arrayIndexOf_notin: "v \<notin> set xs \<Longrightarrow> arrayIndexOf xs v = -1"
  by (induction xs) (auto simp: Let_def)

lemma arrayIndexOf_in:
  "v \<in> set xs \<Longrightarrow>
     0 \<le> arrayIndexOf xs v \<and> arrayIndexOf xs v < int (length xs) \<and> xs ! nat (arrayIndexOf xs v) = v"
proof (induction xs)
  case Nil
  then show ?case by simp
next
  case (Cons x xs)
  show ?case
  proof (cases "x = v")
    case True
    then show ?thesis by simp
  next
    case False
    with Cons.prems have "v \<in> set xs" by simp
    from Cons.IH [OF this] False show ?thesis
      by (simp add: Let_def nat_add_distrib)
  qed
qed

lemma arrayIndexOf_nonneg_iff: "0 \<le> arrayIndexOf xs v \<longleftrightarrow> v \<in> set xs"
proof (cases "v \<in> set xs")
  case True
  then show ?thesis using arrayIndexOf_in [of v xs] by simp
next
  case False
  then show ?thesis using arrayIndexOf_notin [of v xs] by simp
qed

lemma arrayIndexOf_map_inj:
  "inj f \<Longrightarrow> arrayIndexOf (map f xs) (f v) = arrayIndexOf xs v"
  by (induction xs) (simp_all add: inj_eq)

lemma arrayIndexOf_append_in:
  "v \<in> set ys \<Longrightarrow> arrayIndexOf (ys @ zs) v = arrayIndexOf ys v"
proof (induction ys)
  case Nil
  then show ?case by simp
next
  case (Cons y ys)
  then show ?case
    by (cases "y = v") (simp_all add: Let_def)
qed

lemma arrayIndexOf_snoc_new:
  "v \<notin> set ys \<Longrightarrow> arrayIndexOf (ys @ [v]) v = int (length ys)"
  by (induction ys) (auto simp: Let_def)

lemma addAll_order:
  assumes "set seen = set ys"
    and "sorted_wrt (\<lambda>a b. arrayIndexOf ys a < arrayIndexOf ys b) seen"
  shows "sorted_wrt (\<lambda>a b. arrayIndexOf (ys @ xs) a < arrayIndexOf (ys @ xs) b) (addAll seen xs)
       \<and> set (addAll seen xs) = set (ys @ xs)"
  using assms
proof (induction xs arbitrary: seen ys)
  case Nil
  then show ?case by simp
next
  case (Cons x xs)
  let ?seen = "if x \<in> set seen then seen else seen @ [x]"
  have s: "set ?seen = set (ys @ [x])"
    using Cons.prems(1) by auto
  have o: "sorted_wrt (\<lambda>a b. arrayIndexOf (ys @ [x]) a < arrayIndexOf (ys @ [x]) b) ?seen"
  proof (cases "x \<in> set seen")
    case True
    have "sorted_wrt (\<lambda>a b. arrayIndexOf (ys @ [x]) a < arrayIndexOf (ys @ [x]) b) seen"
      using Cons.prems(2)
      by (rule sorted_wrt_mono_rel [rotated])
        (simp add: arrayIndexOf_append_in Cons.prems(1))
    with True show ?thesis by simp
  next
    case False
    then have new: "x \<notin> set ys" using Cons.prems(1) by simp
    have old: "sorted_wrt (\<lambda>a b. arrayIndexOf (ys @ [x]) a < arrayIndexOf (ys @ [x]) b) seen"
      using Cons.prems(2)
      by (rule sorted_wrt_mono_rel [rotated])
        (simp add: arrayIndexOf_append_in Cons.prems(1))
    have "arrayIndexOf (ys @ [x]) a < arrayIndexOf (ys @ [x]) x" if "a \<in> set seen" for a
    proof -
      from that have "a \<in> set ys" using Cons.prems(1) by simp
      then show ?thesis
        using arrayIndexOf_in [of a ys]
        by (simp add: arrayIndexOf_append_in arrayIndexOf_snoc_new [OF new])
    qed
    with old False show ?thesis
      by (simp add: sorted_wrt_append)
  qed
  from Cons.IH [OF s o] show ?case by simp
qed

lemma arrayFromSet_order:
  "sorted_wrt (\<lambda>a b. arrayIndexOf xs a < arrayIndexOf xs b) (arrayFromSet xs)"
  using addAll_order [of "[]" "[]" xs] by (simp add: arrayFromSet_def)

lemma set_arrayFromSet: "set (arrayFromSet xs) = set xs"
  using addAll_order [of "[]" "[]" xs] by (simp add: arrayFromSet_def)

lemma distinct_arrayFromSet: "distinct (arrayFromSet xs)"
proof -
  have "sorted_wrt (\<lambda>a b. a \<noteq> b) (arrayFromSet xs)"
    using arrayFromSet_order [of xs]
    by (rule sorted_wrt_mono_rel [rotated]) auto
  then show ?thesis
    by (simp add: distinct_conv_nth sorted_wrt_iff_nth_less) (metis nat_neq_iff)
qed

lemma mapThrow_Inr: "mapThrow (\<lambda>x. Inr (g x)) xs = Inr (map g xs)"
  by (induction xs) simp_all

lemma indexOf_indexList:
  "indexOf (indexList ks) n = Inr (arrayIndexOf ks (int n))"
proof -
  have inj: "inj (\<lambda>k::int. JNum (of_int k))"
    by (simp add: inj_def)
  have "JNum (of_nat n) = (\<lambda>k::int. JNum (of_int k)) (int n)"
    by simp
  then have "arrayIndexOf (map (\<lambda>k::int. JNum (of_int k)) ks) (JNum (of_nat n))
      = arrayIndexOf ks (int n)"
    using arrayIndexOf_map_inj [OF inj, of ks "int n"] by simp
  then show ?thesis
    by (simp add: indexList_def)
qed


lemma enumerate_rows:
  "map (\<lambda>(index, opp). (opp, arrayIndexOf ks (int (index + 1)))) (enumerate 0 all) = rankedRows all ks"
  by (rule nth_equalityI) (simp_all add: rankedRows_def nth_enumerate_eq add.commute)

lemma rankedTop_indexList:
  "rankedTop all (indexList ks) =
     Inr (map (\<lambda>(opp, r). (opp, Some r))
            (take 3 (sortBy (\<lambda>a b. snd a - snd b) (filter (\<lambda>item. 0 \<le> snd item) (rankedRows all ks)))))"
proof -
  have f: "(\<lambda>(index, opp). case indexOf (indexList ks) (index + 1) of
            Inl e \<Rightarrow> Inl e | Inr r \<Rightarrow> Inr (opp, r))
      = (\<lambda>p. Inr ((\<lambda>(index, opp). (opp, arrayIndexOf ks (int (index + 1)))) p))"
    by (auto simp: indexOf_indexList fun_eq_iff)
  show ?thesis
    by (simp only: rankedTop_def f mapThrow_Inr enumerate_rows sum.case)
qed

lemma sortBy_rank:
  "sortBy (\<lambda>a b. snd a - snd b) (xs :: ('a \<times> int) list) = sort_key snd xs"
  by (rule sortBy_sort_key) auto

lemma rows_in_order:
  "sort_key snd (filter (\<lambda>item. 0 \<le> snd item) (rankedRows all ks))
     = map (\<lambda>k. (all ! nat (k - 1), arrayIndexOf ks k)) (namedPositions (length all) ks)"
  (is "?S = ?T")
proof (rule map_sorted_distinct_set_unique [where f = snd])
  let ?pos = "arrayIndexOf ks"
  let ?N = "length all"
  let ?F = "filter (\<lambda>item. 0 \<le> snd item) (rankedRows all ks)"
  have inj_pos: "a = b" if "?pos a = ?pos b" "0 \<le> ?pos a" for a b
  proof -
    from that have "a \<in> set ks" "b \<in> set ks"
      by (simp_all add: arrayIndexOf_nonneg_iff [symmetric])
    then have "ks ! nat (?pos a) = a" "ks ! nat (?pos b) = b"
      using arrayIndexOf_in [of a ks] arrayIndexOf_in [of b ks] by simp_all
    with that(1) show ?thesis by metis
  qed
  have snd_F: "map snd ?F = map (\<lambda>i. ?pos (int i + 1)) (filter (\<lambda>i. 0 \<le> ?pos (int i + 1)) [0..<?N])"
    by (simp add: rankedRows_def filter_map comp_def)
  have dF: "distinct (map snd ?F)"
    unfolding snd_F
    by (auto simp: distinct_map inj_on_def dest: inj_pos)
  have "mset (map snd ?S) = mset (map snd ?F)"
    by simp
  then show dS: "distinct (map snd ?S)"
    using dF by (metis mset_eq_imp_distinct_iff)
  show "sorted (map snd ?S)"
    by (rule sorted_sort_key)
  have "sorted_wrt (\<lambda>a b. ?pos a < ?pos b) (namedPositions ?N ks)"
    unfolding namedPositions_def by (rule sorted_wrt_filter) (rule arrayFromSet_order)
  then have strict: "sorted_wrt (<) (map snd ?T)"
    by (simp add: sorted_wrt_map comp_def)
  then show "sorted (map snd ?T)" and dT: "distinct (map snd ?T)"
    by (simp_all add: strict_sorted_iff)
  show sets: "set ?S = set ?T"
  proof (intro set_eqI iffI)
    fix p assume "p \<in> set ?S"
    then obtain i where i: "i < ?N" "p = (all ! i, ?pos (int i + 1))" "0 \<le> ?pos (int i + 1)"
      by (auto simp: rankedRows_def)
    then have "int i + 1 \<in> set (namedPositions ?N ks)"
      by (simp add: namedPositions_def set_arrayFromSet arrayIndexOf_nonneg_iff)
    moreover have "p = (all ! nat ((int i + 1) - 1), ?pos (int i + 1))"
      using i by simp
    ultimately show "p \<in> set ?T"
      by (metis (no_types, lifting) image_eqI set_map)
  next
    fix p assume "p \<in> set ?T"
    then obtain k where k: "k \<in> set ks" "1 \<le> k" "k \<le> int ?N" "p = (all ! nat (k - 1), ?pos k)"
      by (auto simp: namedPositions_def set_arrayFromSet)
    let ?i = "nat (k - 1)"
    have "?i < ?N" "int ?i + 1 = k" using k by simp_all
    moreover have "0 \<le> ?pos k" using k by (simp add: arrayIndexOf_nonneg_iff)
    ultimately have "(all ! ?i, ?pos (int ?i + 1)) \<in> set ?F"
      by (auto simp: rankedRows_def)
    with k \<open>int ?i + 1 = k\<close> show "p \<in> set ?S" by simp
  qed
  have "inj_on snd (set ?S)"
    using dS unfolding distinct_map by blast
  then show "inj_on snd (set ?S \<union> set ?T)"
    by (simp only: sets Un_absorb)
qed

lemma recommend_wellFormed:
  assumes "us \<noteq> []" and "wellFormed parse (fetch (userPrompt ol us)) ks"
  shows "fst (recommendOpportunities parse fetch ol all us) =
     (if namedPositions (length all) ks = [] then map plain all
      else map (\<lambda>(opp, r). (opp, Some r))
             (take 3 (map (\<lambda>k. (all ! nat (k - 1), arrayIndexOf ks k))
                        (namedPositions (length all) ks))))"
proof -
  let ?T = "map (\<lambda>k. (all ! nat (k - 1), arrayIndexOf ks k)) (namedPositions (length all) ks)"
  have "rankedTop all (indexList ks) = Inr (map (\<lambda>(opp, r). (opp, Some r)) (take 3 ?T))"
    by (simp only: rankedTop_indexList sortBy_rank rows_in_order)
  then have "fst (getAIRecommendations parse fetch ol all us)
      = map (\<lambda>(opp, r). (opp, Some r)) (take 3 ?T)"
    by (simp add: getAIRecommendations_def parsedRanking_wellFormed [OF assms(2)])
  then obtain requests where "getAIRecommendations parse fetch ol all us
      = (map (\<lambda>(opp, r). (opp, Some r)) (take 3 ?T), requests)"
    by (cases "getAIRecommendations parse fetch ol all us") simp
  moreover have "(map (\<lambda>(opp, r). (opp, Some r)) (take 3 ?T) = [])
      = (namedPositions (length all) ks = [])"
    by (cases "namedPositions (length all) ks") simp_all
  ultimately show ?thesis
    using assms(1) by (simp add: recommendOpportunities_def)
qed

lemma namedPositions_covering:
  assumes "\<forall>i \<in> {1..n}. int i \<in> set ks"
  shows "length (namedPositions n ks) = n"
proof -
  have "distinct (namedPositions n ks)"
    by (simp add: namedPositions_def distinct_arrayFromSet)
  moreover have "set (namedPositions n ks) = int ` {1..n}"
  proof (intro set_eqI iffI)
    fix k assume "k \<in> set (namedPositions n ks)"
    then have "1 \<le> k" "k \<le> int n"
      by (simp_all add: namedPositions_def)
    then have "k = int (nat k)" "nat k \<in> {1..n}"
      by auto
    then show "k \<in> int ` {1..n}" by (rule image_eqI)
  next
    fix k assume "k \<in> int ` {1..n}"
    with assms show "k \<in> set (namedPositions n ks)"
      by (auto simp: namedPositions_def set_arrayFromSet)
  qed
  ultimately have "length (namedPositions n ks) = card (int ` {1..n})"
    by (metis distinct_card)
  also have "\<dots> = n"
    by (simp add: card_image)
  finally show ?thesis .
qed


lemmas example_defs = beach_def tutor_def shelter_def pantry_def clinic_def eco_def
  exampleOpportunity_def replyWith_def parseOnly_def


lemma simple_example:
  "simpleRecommendations [tutor, beach, pantry, shelter] [''ENVIRONMENT'']
     = [beach, shelter, tutor, pantry]"
  by (simp add: simpleRecommendations_def sortBy_def score_def toLowerCase_def toLowerChar_def
      example_defs)


lemma trim_21: "trim ''[2,1]'' = ''[2,1]''"
  by (simp add: trim_def isSpace_def)

subsection \<open>The claims on ranking\<close>

text \<open>
  C1, as amended. When the interests are not empty and the ranking call fails (the
  request is rejected, a statement of the \<^verbatim>\<open>try\<close> block throws, the body or the content
  is not JSON, the content is missing or empty, or \<open>choices\<close> is missing, null or
  empty), the result is the local scoring of the whole catalog: a rearrangement of the
  catalog, in descending order of the count of case-insensitive interest matches,
  opportunities of equal count keeping their catalog order. The status of the response
  plays no part.
\<close>

theorem fallback_on_failure:
  assumes "userInterests \<noteq> []"
    and "remoteFailed parse (fetch (userPrompt opportunitiesList userInterests))"
  shows "fst (recommendOpportunities parse fetch opportunitiesList allOpportunities userInterests)
       = map plain (simpleRecommendations allOpportunities userInterests)
     \<and> mset (simpleRecommendations allOpportunities userInterests) = mset allOpportunities
     \<and> sorted_wrt (\<lambda>a b. matchCount userInterests b \<le> matchCount userInterests a)
         (simpleRecommendations allOpportunities userInterests)
     \<and> (\<forall>k. filter (\<lambda>opp. matchCount userInterests opp = k)
               (simpleRecommendations allOpportunities userInterests)
            = filter (\<lambda>opp. matchCount userInterests opp = k) allOpportunities)"
  using recommend_failed [of userInterests parse fetch opportunitiesList allOpportunities,
      OF assms] simple_mset simple_sorted [OF assms(1)]
    simple_stable [OF assms(1)]
  by blast

theorem fallback_on_failure_witness:
  "fst (recommendOpportunities (parseOnly [] []) (\<lambda>request. Rejected) ''catalog''
          [tutor, beach, pantry, shelter] [''ENVIRONMENT''])
     = [(beach, None), (shelter, None), (tutor, None), (pantry, None)]
   \<and> fst (recommendOpportunities (parseOnly [] [])
            (\<lambda>request. Response 500 (Some (JObj [(''choices'', JNull)]))) ''catalog''
            [tutor, beach, pantry, shelter] [''ENVIRONMENT''])
     = [(beach, None), (shelter, None), (tutor, None), (pantry, None)]
   \<and> fst (recommendOpportunities (\<lambda>raw. if raw = ''5'' then Some (JNum 5) else None)
            (\<lambda>request. replyWith 200 ''5'') ''catalog''
            [tutor, beach, pantry, shelter] [''ENVIRONMENT''])
     = [(beach, None), (shelter, None), (tutor, None), (pantry, None)]
   \<and> matchCount [''ENVIRONMENT''] beach = 1 \<and> matchCount [''ENVIRONMENT''] shelter = 1
   \<and> matchCount [''ENVIRONMENT''] tutor = 0 \<and> matchCount [''ENVIRONMENT''] pantry = 0"
proof -
  have f: "remoteFailed (parseOnly [] [])
      ((\<lambda>request. Rejected) (userPrompt ''catalog'' [''ENVIRONMENT'']))"
    by (simp add: remoteFailed_def delivered_def)
  have g: "remoteFailed (parseOnly [] [])
      ((\<lambda>request. Response 500 (Some (JObj [(''choices'', JNull)])))
         (userPrompt ''catalog'' [''ENVIRONMENT'']))"
    by (simp add: remoteFailed_def delivered_def contentText_def)
  have t: "trim ''5'' = ''5''"
    by (simp add: trim_def isSpace_def)
  have h: "remoteFailed (\<lambda>raw. if raw = ''5'' then Some (JNum 5) else None)
      ((\<lambda>request. replyWith 200 ''5'') (userPrompt ''catalog'' [''ENVIRONMENT'']))"
    by (simp add: remoteFailed_def delivered_def contentText_def replyWith_def t)
  have m: "matchCount [''ENVIRONMENT''] beach = 1" "matchCount [''ENVIRONMENT''] shelter = 1"
    "matchCount [''ENVIRONMENT''] tutor = 0" "matchCount [''ENVIRONMENT''] pantry = 0"
    by (simp_all add: matchCount_def toLowerCase_def toLowerChar_def example_defs)
  show ?thesis
    using fallback_on_failure [where userInterests = "[''ENVIRONMENT'']"
        and opportunitiesList = "''catalog''"
        and allOpportunities = "[tutor, beach, pantry, shelter]", OF _ f]
      fallback_on_failure [where userInterests = "[''ENVIRONMENT'']"
        and opportunitiesList = "''catalog''"
        and allOpportunities = "[tutor, beach, pantry, shelter]", OF _ g]
      fallback_on_failure [where userInterests = "[''ENVIRONMENT'']"
        and opportunitiesList = "''catalog''"
        and allOpportunities = "[tutor, beach, pantry, shelter]", OF _ h]
    by (simp add: simple_example plain_def m)
qed

text \<open>
  C1 as stated fails: a response with status 500 whose body is a well-formed ranking is
  a failure by the claim, and the result is the remote ranking, not the local scoring.
\<close>

theorem bad_status_counterexample:
  "remoteFailedOrBadStatus (parseOnly ''[2,1]'' [2, 1])
       ((\<lambda>request. replyWith 500 ''[2,1]'') (userPrompt ''catalog'' [''environment'']))
   \<and> fst (recommendOpportunities (parseOnly ''[2,1]'' [2, 1])
            (\<lambda>request. replyWith 500 ''[2,1]'') ''catalog'' [beach, tutor] [''environment''])
       = [(tutor, Some 0), (beach, Some 1)]
   \<and> map plain (simpleRecommendations [beach, tutor] [''environment''])
       = [(beach, None), (tutor, None)]"
proof -
  have w: "wellFormed (parseOnly ''[2,1]'' [2, 1])
      ((\<lambda>request. replyWith 500 ''[2,1]'') (userPrompt ''catalog'' [''environment''])) [2, 1]"
    by (simp add: replyWith_def parseOnly_def trim_21)
  have "fst (recommendOpportunities (parseOnly ''[2,1]'' [2, 1])
            (\<lambda>request. replyWith 500 ''[2,1]'') ''catalog'' [beach, tutor] [''environment''])
       = [(tutor, Some 0), (beach, Some 1)]"
    using recommend_wellFormed [where us = "[''environment'']" and ol = "''catalog''"
        and all = "[beach, tutor]", OF _ w]
    by (simp add: namedPositions_def arrayFromSet_def)
  moreover have "simpleRecommendations [beach, tutor] [''environment''] = [beach, tutor]"
    by (simp add: simpleRecommendations_def sortBy_def score_def toLowerCase_def toLowerChar_def
        example_defs)
  ultimately show ?thesis
    by (simp add: remoteFailedOrBadStatus_def statusOk_def replyWith_def plain_def)
qed


text \<open>
  C2. When the interests are not empty and the content of a well-formed response parses
  to a list of integers that names every catalog position from 1 to \<open>N\<close>, the result has
  exactly \<open>min 3 N\<close> opportunities: the first three of the catalog entries at the named
  positions, in the order of their first mention, the integers outside 1 to \<open>N\<close> left out.
\<close>

theorem remote_ranking_top3:
  assumes "userInterests \<noteq> []"
    and "wellFormed parse (fetch (userPrompt opportunitiesList userInterests)) ks"
    and "\<forall>i \<in> {1..length allOpportunities}. int i \<in> set ks"
  shows "map fst (fst (recommendOpportunities parse fetch opportunitiesList allOpportunities
                         userInterests))
       = take 3 (map (\<lambda>k. allOpportunities ! nat (k - 1))
                   (namedPositions (length allOpportunities) ks))
     \<and> length (fst (recommendOpportunities parse fetch opportunitiesList allOpportunities
                       userInterests))
       = min 3 (length allOpportunities)"
proof -
  let ?P = "namedPositions (length allOpportunities) ks"
  note eq = recommend_wellFormed [of userInterests parse fetch opportunitiesList ks
      allOpportunities, OF assms(1,2)]
  have len: "length ?P = length allOpportunities"
    by (rule namedPositions_covering [OF assms(3)])
  show ?thesis
  proof (cases "?P = []")
    case True
    with len have "allOpportunities = []" by simp
    with True eq show ?thesis
      by simp
  next
    case False
    then show ?thesis
      using len
      by (simp add: eq take_map comp_def case_prod_unfold min.commute)
  qed
qed


theorem remote_ranking_top3_witness:
  "map fst (fst (recommendOpportunities (parseOnly ''[3,9,1,3,4,2]'' [3, 9, 1, 3, 4, 2])
       (\<lambda>request. replyWith 200 '' [3,9,1,3,4,2] '') ''catalog''
       [beach, tutor, shelter, pantry] [''environment'']))
     = [shelter, beach, pantry]
   \<and> length (fst (recommendOpportunities (parseOnly ''[3,9,1,3,4,2]'' [3, 9, 1, 3, 4, 2])
       (\<lambda>request. replyWith 200 '' [3,9,1,3,4,2] '') ''catalog''
       [beach, tutor, shelter, pantry] [''environment''])) = 3"
proof -
  have t: "trim '' [3,9,1,3,4,2] '' = ''[3,9,1,3,4,2]''"
    by (simp add: trim_def isSpace_def)
  have w: "wellFormed (parseOnly ''[3,9,1,3,4,2]'' [3, 9, 1, 3, 4, 2])
      ((\<lambda>request. replyWith 200 '' [3,9,1,3,4,2] '') (userPrompt ''catalog'' [''environment'']))
      [3, 9, 1, 3, 4, 2]"
    by (simp add: replyWith_def parseOnly_def t)
  have c: "\<forall>i \<in> {1..length [beach, tutor, shelter, pantry]}. int i \<in> set [3, 9, 1, 3, 4, 2]"
    by (simp add: eval_nat_numeral atLeastAtMostSuc_conv)
  have r: "take 3 (map (\<lambda>k. [beach, tutor, shelter, pantry] ! nat (k - 1))
                (namedPositions (length [beach, tutor, shelter, pantry]) [3, 9, 1, 3, 4, 2]))
      = [shelter, beach, pantry]"
    by (simp add: namedPositions_def arrayFromSet_def)
  show ?thesis
    using remote_ranking_top3 [where userInterests = "[''environment'']"
        and opportunitiesList = "''catalog''", OF _ w c]
    unfolding r by simp
qed

text \<open>
  C4. Ranking with an empty interests list returns the whole catalog, unchanged and in
  its order, whatever the skills, and posts no request to the remote service.
\<close>

theorem recommend_empty_interests:
  "recommendOpportunities parse fetch opportunitiesList allOpportunities [] =
     (map plain allOpportunities, [])"
  by (simp add: recommendOpportunities_def)

text \<open>
  C5. When the interests are not empty and a well-formed response names no catalog
  position (its list is empty or every integer lies outside 1 to \<open>N\<close>), the result is
  the whole catalog in its order, not the local scoring.
\<close>

theorem empty_ranking_full_catalog:
  assumes "userInterests \<noteq> []"
    and "wellFormed parse (fetch (userPrompt opportunitiesList userInterests)) ks"
    and "\<forall>k \<in> set ks. k < 1 \<or> int (length allOpportunities) < k"
  shows "fst (recommendOpportunities parse fetch opportunitiesList allOpportunities userInterests)
       = map plain allOpportunities"
proof -
  have "namedPositions (length allOpportunities) ks = []"
    using assms(3)
    by (auto simp: namedPositions_def filter_empty_conv set_arrayFromSet)
  then show ?thesis
    by (simp add: recommend_wellFormed [of userInterests parse fetch opportunitiesList ks
          allOpportunities, OF assms(1,2)])
qed


theorem empty_ranking_full_catalog_witness:
  "fst (recommendOpportunities (parseOnly ''[7,0]'' [7, 0])
          (\<lambda>request. replyWith 200 ''[7,0]'') ''catalog'' [tutor, beach] [''environment''])
     = [(tutor, None), (beach, None)]
   \<and> simpleRecommendations [tutor, beach] [''environment''] = [beach, tutor]"
proof -
  have t: "trim ''[7,0]'' = ''[7,0]''"
    by (simp add: trim_def isSpace_def)
  have w: "wellFormed (parseOnly ''[7,0]'' [7, 0])
      ((\<lambda>request. replyWith 200 ''[7,0]'') (userPrompt ''catalog'' [''environment''])) [7, 0]"
    by (simp add: replyWith_def parseOnly_def t)
  have o: "\<forall>k \<in> set [7, 0]. k < 1 \<or> int (length [tutor, beach]) < k"
    by simp
  have "simpleRecommendations [tutor, beach] [''environment''] = [beach, tutor]"
    by (simp add: simpleRecommendations_def sortBy_def score_def toLowerCase_def toLowerChar_def
        example_defs)
  then show ?thesis
    using empty_ranking_full_catalog [where userInterests = "[''environment'']"
        and opportunitiesList = "''catalog''", OF _ w o]
    by (simp add: plain_def)
qed

section \<open>Properties of the filter engine\<close>

lemma mset_insertBy: "mset (insertBy cmp x xs) = add_mset x (mset xs)"
  by (induction xs) simp_all

lemma mset_sortBy: "mset (sortBy cmp xs) = mset xs"
  by (induction xs) (simp_all add: sortBy_def mset_insertBy)

lemma set_sortBy: "set (sortBy cmp xs) = set xs"
  using mset_sortBy [of cmp xs] by (metis set_mset_mset)

lemma sorted_insertBy:
  assumes total: "\<And>x y. cmp x y \<le> 0 \<or> cmp y x \<le> 0"
    and trans: "\<And>x y z. cmp x y \<le> 0 \<Longrightarrow> cmp y z \<le> 0 \<Longrightarrow> cmp x z \<le> 0"
    and "sorted_wrt (\<lambda>a b. cmp a b \<le> 0) xs"
  shows "sorted_wrt (\<lambda>a b. cmp a b \<le> 0) (insertBy cmp x xs)"
  using assms(3)
proof (induction xs)
  case Nil
  then show ?case by simp
next
  case (Cons y ys)
  show ?case
  proof (cases "cmp x y \<le> 0")
    case True
    with Cons.prems show ?thesis
      by (auto intro: trans)
  next
    case False
    with total [of x y] have "cmp y x \<le> 0" by simp
    with False Cons show ?thesis
      by (auto simp: set_mset_mset [symmetric] mset_insertBy simp del: set_mset_mset)
  qed
qed

lemma sorted_sortBy:
  assumes total: "\<And>x y. cmp x y \<le> 0 \<or> cmp y x \<le> 0"
    and trans: "\<And>x y z. cmp x y \<le> 0 \<Longrightarrow> cmp y z \<le> 0 \<Longrightarrow> cmp x z \<le> 0"
  shows "sorted_wrt (\<lambda>a b. cmp a b \<le> 0) (sortBy cmp xs)"
proof (induction xs)
  case Nil
  then show ?case by (simp add: sortBy_def)
next
  case (Cons x xs)
  have "sorted_wrt (\<lambda>a b. cmp a b \<le> 0) (insertBy cmp x (sortBy cmp xs))"
  proof (rule sorted_insertBy)
    show "cmp a b \<le> 0 \<or> cmp b a \<le> 0" for a b
      by (rule total)
    show "cmp a d \<le> 0" if "cmp a b \<le> 0" "cmp b d \<le> 0" for a b d
      using that by (rule trans)
    show "sorted_wrt (\<lambda>a b. cmp a b \<le> 0) (sortBy cmp xs)"
      by (rule Cons.IH)
  qed
  then show ?case by (simp add: sortBy_def)
qed

lemma sorted_wrt_distinct_key:
  "sorted_wrt P xs \<Longrightarrow> distinct (map f xs) \<Longrightarrow> sorted_wrt (\<lambda>a b. P a b \<and> f a \<noteq> f b) xs"
  by (induction xs) auto













lemma overlap_count:
  "length (filter (\<lambda>x. x \<in> set (map toLowerCase us)) (map toLowerCase xs))
     = length (filter (\<lambda>x. \<exists>u \<in> set us. toLowerCase u = toLowerCase x) xs)"
proof -
  have "(\<lambda>x. toLowerCase x \<in> set (map toLowerCase us))
      = (\<lambda>x. \<exists>u \<in> set us. toLowerCase u = toLowerCase x)"
    by (rule ext) (auto simp: image_iff intro: sym)
  then show ?thesis
    by (simp add: filter_map comp_def)
qed

lemma scoredRows_rowOf:
  "scoredRows dayOf all c ui us
     = map (\<lambda>p. rowOf all ui us (fst p))
         (filter (\<lambda>p. passesFilter dayOf c (snd p)) (enumerate 0 all))"
proof -
  have "(\<lambda>(i, opp). \<lparr>opportunity = opp, index = i,
            interestOverlap = length (filter (\<lambda>interest. interest \<in> set (map toLowerCase ui))
                                        (map toLowerCase (interests opp))),
            skillOverlap = length (filter (\<lambda>skill. skill \<in> set (map toLowerCase us))
                                     (map toLowerCase (skills opp)))\<rparr>) p
      = rowOf all ui us (fst p)"
    if "p \<in> set (enumerate 0 all)" for p
    using that
    by (auto simp: rowOf_def matchCount_def skillMatchCount_def overlap_count
        in_set_enumerate_eq case_prod_unfold simp del: set_map length_filter_map)
  then show ?thesis
    unfolding scoredRows_def Let_def
    by (auto simp: case_prod_unfold intro!: map_cong simp del: set_map)
qed

lemma set_sortedRows:
  "set (sortedRows dayOf all c ui us)
     = {rowOf all ui us i | i. i < length all \<and> passesFilter dayOf c (all ! i)}"
  by (auto simp: sortedRows_def set_sortBy scoredRows_rowOf in_set_enumerate_eq image_iff)

lemma distinct_index_sortedRows: "distinct (map index (sortedRows dayOf all c ui us))"
proof -
  let ?rows = "scoredRows dayOf all c ui us"
  have "map index ?rows = map fst (filter (\<lambda>p. passesFilter dayOf c (snd p)) (enumerate 0 all))"
    by (simp add: scoredRows_rowOf rowOf_def comp_def)
  moreover have "distinct (map fst (enumerate 0 all))"
    by simp
  ultimately have "distinct (map index ?rows)"
    by (simp add: distinct_map_filter)
  moreover have "mset (map index (sortBy compareScored ?rows)) = mset (map index ?rows)"
    by (simp add: mset_sortBy)
  ultimately show ?thesis
    unfolding sortedRows_def by (metis mset_eq_imp_distinct_iff)
qed

lemma compareScored_total: "compareScored a b \<le> 0 \<or> compareScored b a \<le> 0"
  by (auto simp: compareScored_def)

lemma compareScored_trans:
  "compareScored a b \<le> 0 \<Longrightarrow> compareScored b d \<le> 0 \<Longrightarrow> compareScored a d \<le> 0"
  by (auto simp: compareScored_def split: if_splits)

lemma compareScored_ranksBefore:
  "compareScored a b \<le> 0 \<and> index a \<noteq> index b \<Longrightarrow> ranksBefore a b"
  by (auto simp: compareScored_def ranksBefore_def split: if_splits)

lemma sorted_sortedRows: "sorted_wrt ranksBefore (sortedRows dayOf all c ui us)"
proof -
  have "sorted_wrt (\<lambda>a b. compareScored a b \<le> 0) (sortedRows dayOf all c ui us)"
    unfolding sortedRows_def
    by (rule sorted_sortBy) (rule compareScored_total, erule (1) compareScored_trans)
  then have "sorted_wrt (\<lambda>a b. compareScored a b \<le> 0 \<and> index a \<noteq> index b)
      (sortedRows dayOf all c ui us)"
    using distinct_index_sortedRows by (rule sorted_wrt_distinct_key)
  then show ?thesis
    by (rule sorted_wrt_mono_rel [rotated]) (rule compareScored_ranksBefore)
qed






subsection \<open>The claims on filtering\<close>




text \<open>
  C6. The filter result lists the opportunities of the sorted rows. The rows are those
  of the surviving catalog entries, each with its catalog index, its count of
  case-insensitive interest matches with the profile and its count of skill matches;
  and they are in order: of two rows the earlier has the greater interest count, or the
  same interest count and the greater skill count, or the same counts and the smaller
  catalog index.
\<close>

theorem filtered_order:
  "filteredOpportunities dayOf allOpportunities c userInterests userSkills
     = map opportunity (sortedRows dayOf allOpportunities c userInterests userSkills)
   \<and> set (sortedRows dayOf allOpportunities c userInterests userSkills)
     = {\<lparr>opportunity = allOpportunities ! i, index = i,
         interestOverlap = matchCount userInterests (allOpportunities ! i),
         skillOverlap = skillMatchCount userSkills (allOpportunities ! i)\<rparr> | i.
        i < length allOpportunities \<and> passesFilter dayOf c (allOpportunities ! i)}
   \<and> sorted_wrt ranksBefore (sortedRows dayOf allOpportunities c userInterests userSkills)"
  using set_sortedRows [of dayOf allOpportunities c userInterests userSkills]
  by (simp add: filteredOpportunities_def sorted_sortedRows rowOf_def)

theorem filtered_order_witness:
  "sorted_wrt ranksBefore
     (sortedRows exampleDay [beach, tutor, shelter, pantry, clinic] noCriteria
        [''environment''] [''teaching''])
   \<and> filteredOpportunities exampleDay [beach, tutor, shelter, pantry, clinic] noCriteria
        [''environment''] [''teaching'']
     = [beach, shelter, tutor, clinic, pantry]
   \<and> filteredOpportunities exampleDay [tutor, eco] noCriteria [CHR 0xE9 # ''cologie''] []
     = [eco, tutor]"
proof -
  have p: "passesFilter exampleDay noCriteria opp" for opp
    by (simp add: passesFilter_def matchesDate_def noCriteria_def trim_def toLowerCase_def
        split: option.splits)
  have "filteredOpportunities exampleDay [beach, tutor, shelter, pantry, clinic] noCriteria
        [''environment''] [''teaching'']
     = [beach, shelter, tutor, clinic, pantry]"
    by (simp add: filteredOpportunities_def sortedRows_def scoredRows_def sortBy_def
        compareScored_def p enumerate_simps example_defs toLowerCase_def toLowerChar_def)
  moreover have "filteredOpportunities exampleDay [tutor, eco] noCriteria
      [CHR 0xE9 # ''cologie''] [] = [eco, tutor]"
    by (simp add: filteredOpportunities_def sortedRows_def scoredRows_def sortBy_def
        compareScored_def p enumerate_simps example_defs toLowerCase_def toLowerChar_def)
  ultimately show ?thesis
    using filtered_order [of exampleDay "[beach, tutor, shelter, pantry, clinic]" noCriteria
        "[''environment'']" "[''teaching'']"]
    by simp
qed

section \<open>Properties of the favourites\<close>

lemma normalize_idem:
  "normalizeFavoriteId toNumber (normalizeFavoriteId toNumber v) = normalizeFavoriteId toNumber v"
  by (simp add: normalizeFavoriteId_def split: favourite.splits option.splits)

lemma map_normalize_fixed:
  assumes "\<forall>x \<in> set xs. normalizeFavoriteId toNumber x = x"
  shows "map (normalizeFavoriteId toNumber) xs = xs"
  using assms by (simp add: map_idI)

lemma toggle_set:
  "set (handleToggleFavorite toNumber a favs) =
     (if normalizeFavoriteId toNumber a \<in> normalizeFavoriteId toNumber ` set favs
      then normalizeFavoriteId toNumber ` set favs - {normalizeFavoriteId toNumber a}
      else insert (normalizeFavoriteId toNumber a) (normalizeFavoriteId toNumber ` set favs))"
  by (auto simp: handleToggleFavorite_def Let_def set_arrayFromSet)

lemma toggle_fixed:
  "x \<in> set (handleToggleFavorite toNumber a favs) \<Longrightarrow> normalizeFavoriteId toNumber x = x"
  by (auto simp: toggle_set normalize_idem split: if_splits)

lemma toggle_normalized:
  "map (normalizeFavoriteId toNumber) (handleToggleFavorite toNumber a favs)
     = handleToggleFavorite toNumber a favs"
  by (rule map_normalize_fixed) (simp add: toggle_fixed)

lemma toggle_distinct: "distinct (handleToggleFavorite toNumber a favs)"
  by (simp add: handleToggleFavorite_def Let_def distinct_arrayFromSet)

lemma load_normalized:
  "map (normalizeFavoriteId toNumber) (loadFavorites toNumber storage)
     = loadFavorites toNumber storage"
  by (rule map_normalize_fixed)
    (auto simp: loadFavorites_def set_arrayFromSet normalize_idem split: stored.splits)

lemma load_distinct: "distinct (loadFavorites toNumber storage)"
  by (simp add: loadFavorites_def distinct_arrayFromSet split: stored.splits)


text \<open>
  C7. Toggling an id twice in succession, in any two forms with the same normal form
  (such as the string \<open>3\<close> and the number 3), leaves the membership of that id in the
  favourites as it was; the favourites are then the normal forms of the original ones.
\<close>

theorem toggle_twice_restores:
  assumes "normalizeFavoriteId toNumber a = normalizeFavoriteId toNumber b"
  shows "(isFavorited toNumber
            (handleToggleFavorite toNumber b (handleToggleFavorite toNumber a favs)) a
          \<longleftrightarrow> isFavorited toNumber favs a)
       \<and> set (handleToggleFavorite toNumber b (handleToggleFavorite toNumber a favs))
          = set (map (normalizeFavoriteId toNumber) favs)"
proof -
  let ?n = "normalizeFavoriteId toNumber"
  let ?once = "handleToggleFavorite toNumber a favs"
  have fixed: "?n ` set ?once = set ?once"
    using toggle_normalized [of toNumber a favs] by (metis set_map)
  have once: "set ?once =
      (if ?n a \<in> ?n ` set favs then ?n ` set favs - {?n a} else insert (?n a) (?n ` set favs))"
    by (rule toggle_set)
  have "set (handleToggleFavorite toNumber b ?once) =
      (if ?n a \<in> set ?once then set ?once - {?n a} else insert (?n a) (set ?once))"
    by (simp only: toggle_set [of toNumber b ?once] fixed assms [symmetric])
  also have "\<dots> = ?n ` set favs"
    unfolding once by auto
  finally have twice: "set (handleToggleFavorite toNumber b ?once) = ?n ` set favs" .
  have "?n ` set (handleToggleFavorite toNumber b ?once) = ?n ` set favs"
    using toggle_normalized [of toNumber b ?once] twice by (metis set_map)
  with twice show ?thesis
    by (simp add: isFavorited_def)
qed


theorem toggle_twice_restores_witness:
  "loadFavorites (numberOnly ''3'' 3) (StoredArray [StringId ''3'']) = [NumberId 3]
   \<and> handleToggleFavorite (numberOnly ''3'' 3) (NumberId 3) [NumberId 3] = []
   \<and> handleToggleFavorite (numberOnly ''3'' 3) (StringId ''3'') [NumberId 5, NumberId 3]
       = [NumberId 5]
   \<and> isFavorited (numberOnly ''3'' 3) [NumberId 5, NumberId 3] (StringId ''3'')
   \<and> isFavorited (numberOnly ''3'' 3)
         (handleToggleFavorite (numberOnly ''3'' 3) (NumberId 3)
            (handleToggleFavorite (numberOnly ''3'' 3) (StringId ''3'') [NumberId 5, NumberId 3]))
         (StringId ''3'')"
proof -
  have same: "normalizeFavoriteId (numberOnly ''3'' 3) (StringId ''3'')
      = normalizeFavoriteId (numberOnly ''3'' 3) (NumberId 3)"
    by (simp add: normalizeFavoriteId_def numberOnly_def)
  have before: "isFavorited (numberOnly ''3'' 3) [NumberId 5, NumberId 3] (StringId ''3'')"
    by (simp add: isFavorited_def normalizeFavoriteId_def numberOnly_def)
  have "loadFavorites (numberOnly ''3'' 3) (StoredArray [StringId ''3'']) = [NumberId 3]"
    "handleToggleFavorite (numberOnly ''3'' 3) (NumberId 3) [NumberId 3] = []"
    "handleToggleFavorite (numberOnly ''3'' 3) (StringId ''3'') [NumberId 5, NumberId 3]
       = [NumberId 5]"
    by (simp_all add: loadFavorites_def handleToggleFavorite_def arrayFromSet_def
        normalizeFavoriteId_def numberOnly_def)
  with before show ?thesis
    using toggle_twice_restores [OF same, of "[NumberId 5, NumberId 3]"]
    by simp
qed


text \<open>
  C10. After loading the favourites from storage and after every toggle that follows, no
  two favourites have the same normal form, whatever array of ids was stored and
  whatever ids are toggled.
\<close>

theorem favourites_distinct:
  "distinct (map (normalizeFavoriteId toNumber)
     (foldl (\<lambda>current favId. handleToggleFavorite toNumber favId current)
        (loadFavorites toNumber storage) toggles))"
proof (cases toggles rule: rev_cases)
  case Nil
  then show ?thesis
    by (simp add: load_normalized load_distinct)
next
  case (snoc earlier favId)
  then show ?thesis
    by (simp add: toggle_normalized toggle_distinct)
qed

theorem favourites_distinct_witness:
  "foldl (\<lambda>current favId. handleToggleFavorite (numberOnly ''3'' 3) favId current)
     (loadFavorites (numberOnly ''3'' 3)
        (StoredArray [StringId ''3'', NumberId 3, StringId ''abc'', NumberId 7, StringId ''abc'']))
     [StringId ''abc'', NumberId 3, StringId ''3'']
   = [NumberId 7, NumberId 3]
   \<and> distinct (map (normalizeFavoriteId (numberOnly ''3'' 3))
       [NumberId 7, NumberId 3])"
proof -
  have "foldl (\<lambda>current favId. handleToggleFavorite (numberOnly ''3'' 3) favId current)
     (loadFavorites (numberOnly ''3'' 3)
        (StoredArray [StringId ''3'', NumberId 3, StringId ''abc'', NumberId 7, StringId ''abc'']))
     [StringId ''abc'', NumberId 3, StringId ''3'']
   = [NumberId 7, NumberId 3]"
    by (simp add: loadFavorites_def handleToggleFavorite_def arrayFromSet_def
        normalizeFavoriteId_def numberOnly_def)
  then show ?thesis
    using favourites_distinct [of "numberOnly ''3'' 3"
        "StoredArray [StringId ''3'', NumberId 3, StringId ''abc'', NumberId 7, StringId ''abc'']"
        "[StringId ''abc'', NumberId 3, StringId ''3'']"]
    by simp
qed


section \<open>Properties of the opportunities page\<close>

lemma cleanup_all: "k < length flags \<Longrightarrow> (\<forall>j. Suc j < length flags \<longrightarrow> flags ! j) \<Longrightarrow> cleanup flags ! k"
  by (cases flags rule: rev_cases) (auto simp: cleanup_def nth_append)

lemma length_cleanup: "length (cleanup flags) = length flags"
  by (cases flags rule: rev_cases) (simp_all add: cleanup_def)

lemma cleanup_old: "Suc k < length flags \<Longrightarrow> cleanup flags ! k = flags ! k"
  by (cases flags rule: rev_cases) (auto simp: cleanup_def nth_append)

lemma superseded_step: "superseded s \<Longrightarrow> superseded (step all s e)"
proof (cases e)
  case ProfileChanged
  assume "superseded s"
  then show ?thesis
    using ProfileChanged
    by (auto simp: superseded_def nth_append length_cleanup cleanup_all)
next
  case Unmounted
  assume "superseded s"
  then show ?thesis
    using Unmounted by (auto simp: superseded_def length_cleanup cleanup_old)
qed (auto simp: superseded_def)

lemma superseded_run: "superseded (run all events)"
proof (induction events rule: rev_induct)
  case Nil
  then show ?case by (simp add: run_def superseded_def initialPage_def)
next
  case (snoc e events)
  then show ?case
    using superseded_step [of "run all events" all e] by (simp add: run_def)
qed


text \<open>
  C8. Once a ranking request has been superseded by a later one, its response leaves
  the page as it is, whether it resolves or throws and whether or not the later request
  has been answered: the recommendations shown are never overwritten by a stale result.
\<close>

theorem stale_response_ignored:
  assumes "Suc k < length (ignore (run allOpportunities events))"
  shows "step allOpportunities (run allOpportunities events) (Resolved k results)
           = run allOpportunities events
       \<and> step allOpportunities (run allOpportunities events) (Thrown k)
           = run allOpportunities events"
  using assms superseded_run [of allOpportunities events]
  by (simp add: superseded_def)


theorem stale_response_ignored_witness:
  "recommended (run [beach, tutor]
      [ProfileChanged, ProfileChanged, Resolved 1 [(tutor, Some 0)], Resolved 0 [(beach, Some 0)]])
     = [(tutor, Some 0)]
   \<and> recommended (run [beach, tutor]
      [ProfileChanged, ProfileChanged, Resolved 0 [(beach, Some 0)], Resolved 1 [(tutor, Some 0)]])
     = [(tutor, Some 0)]"
proof -
  have a: "run [beach, tutor] [ProfileChanged, ProfileChanged, Resolved 1 [(tutor, Some 0)]]
      = \<lparr>recommended = [(tutor, Some 0)], loading = False, error = [], ignore = [True, False]\<rparr>"
    by (simp add: run_def initialPage_def cleanup_def)
  have b: "run [beach, tutor] [ProfileChanged, ProfileChanged]
      = \<lparr>recommended = [], loading = True, error = [], ignore = [True, False]\<rparr>"
    by (simp add: run_def initialPage_def cleanup_def)
  have "Suc 0 < length (ignore (run [beach, tutor]
      [ProfileChanged, ProfileChanged, Resolved 1 [(tutor, Some 0)]]))"
    unfolding a by simp
  from stale_response_ignored [OF this, of "[(beach, Some 0)]"]
  have "run [beach, tutor]
      [ProfileChanged, ProfileChanged, Resolved 1 [(tutor, Some 0)], Resolved 0 [(beach, Some 0)]]
      = run [beach, tutor] [ProfileChanged, ProfileChanged, Resolved 1 [(tutor, Some 0)]]"
    by (simp add: run_def)
  moreover have "run [beach, tutor]
      [ProfileChanged, ProfileChanged, Resolved 0 [(beach, Some 0)], Resolved 1 [(tutor, Some 0)]]
     = \<lparr>recommended = [(tutor, Some 0)], loading = False, error = [], ignore = [True, False]\<rparr>"
    by (simp add: run_def initialPage_def cleanup_def)
  ultimately show ?thesis
    unfolding a by simp
qed

section \<open>Properties of saving the profile\<close>

lemma interestTags_edits:
  "interestTags (foldl edit f inputs)
     = filter (\<lambda>interest. interest \<notin> set (removedInterests inputs)) (interestTags f)"
proof (induction inputs arbitrary: f)
  case Nil
  then show ?case by simp
next
  case (Cons i inputs)
  show ?case
  proof (cases i)
    case (RemoveInterest x)
    have "(\<lambda>interest. interest \<notin> set (removedInterests inputs) \<and> interest \<noteq> x)
        = (\<lambda>interest. interest \<noteq> x \<and> interest \<notin> set (removedInterests inputs))"
      by auto
    with RemoveInterest show ?thesis
      by (simp add: Cons.IH)
  qed (simp_all add: Cons.IH)
qed

lemma splitOn_not_Nil: "splitOn sep t \<noteq> []"
  by (induction t) (simp_all split: list.splits)

lemma join_Cons_char: "join sep ((c # piece) # pieces) = c # join sep (piece # pieces)"
  by (cases pieces) simp_all

lemma join_splitOn: "join [sep] (splitOn sep t) = t"
proof (induction t)
  case Nil
  then show ?case by simp
next
  case (Cons c cs)
  obtain piece pieces where ps: "splitOn sep cs = piece # pieces"
    using splitOn_not_Nil [of sep cs] by (cases "splitOn sep cs") auto
  with Cons show ?case
    by (simp add: join_Cons_char)
qed

lemma splitOn_no_sep: "piece \<in> set (splitOn sep t) \<Longrightarrow> sep \<notin> set piece"
proof (induction t arbitrary: piece)
  case Nil
  then show ?case by simp
next
  case (Cons c cs)
  obtain p ps where ps: "splitOn sep cs = p # ps"
    using splitOn_not_Nil [of sep cs] by (cases "splitOn sep cs") auto
  with Cons show ?case
    by (auto split: if_splits)
qed

text \<open>
  C9, as amended. A save stores the interests it is given and never merges or adds any.
  The tag form saves exactly the profile's interests that no input has removed, in their
  order and casing, so a profile whose interests differ pairwise when case is ignored
  stays so; its story form saves the interests unchanged; the comma-separated form cuts
  the text at its commas and saves, in order, every trimmed piece that is not empty.
\<close>

theorem save_keeps_interests:
  "profileInterests (submitProfile fallbackName fallbackEmail (foldl edit (openForm p) inputs))
     = filter (\<lambda>interest. interest \<notin> set (removedInterests inputs)) (profileInterests p)
   \<and> (distinctIgnoringCase (profileInterests p) \<longrightarrow>
        distinctIgnoringCase (profileInterests (submitProfile fallbackName fallbackEmail
                                                  (foldl edit (openForm p) inputs))))
   \<and> profileInterests (saveStory p storyText) = profileInterests p
   \<and> (\<exists>pieces. pieces \<noteq> [] \<and> join '','' pieces = interestsText
         \<and> (\<forall>piece \<in> set pieces. CHR '','' \<notin> set piece)
         \<and> profileInterests (submitProfilePage nameText interestsText)
             = filter (\<lambda>piece. piece \<noteq> []) (map trim pieces))"
proof -
  have tags: "profileInterests (submitProfile fallbackName fallbackEmail
                (foldl edit (openForm p) inputs))
     = filter (\<lambda>interest. interest \<notin> set (removedInterests inputs)) (profileInterests p)"
    by (simp add: submitProfile_def interestTags_edits openForm_def)
  have "distinctIgnoringCase (filter (\<lambda>interest. interest \<notin> set (removedInterests inputs))
          (profileInterests p))"
    if "distinctIgnoringCase (profileInterests p)"
    using that unfolding distinctIgnoringCase_def by (rule distinct_map_filter)
  moreover have "profileInterests (saveStory p storyText) = profileInterests p"
    by (simp add: saveStory_def)
  moreover have "\<exists>pieces. pieces \<noteq> [] \<and> join '','' pieces = interestsText
         \<and> (\<forall>piece \<in> set pieces. CHR '','' \<notin> set piece)
         \<and> profileInterests (submitProfilePage nameText interestsText)
             = filter (\<lambda>piece. piece \<noteq> []) (map trim pieces)"
  proof (intro exI conjI)
    show "splitOn (CHR '','') interestsText \<noteq> []"
      by (rule splitOn_not_Nil)
    show "join '','' (splitOn (CHR '','') interestsText) = interestsText"
      by (rule join_splitOn)
    show "\<forall>piece \<in> set (splitOn (CHR '','') interestsText). CHR '','' \<notin> set piece"
      by (simp add: splitOn_no_sep)
    show "profileInterests (submitProfilePage nameText interestsText)
        = filter (\<lambda>piece. piece \<noteq> []) (map trim (splitOn (CHR '','') interestsText))"
      by (simp add: submitProfilePage_def interestList_def)
  qed
  ultimately show ?thesis
    using tags by simp
qed

theorem save_keeps_interests_witness:
  "distinctIgnoringCase (profileInterests exampleProfile)
   \<and> profileInterests (submitProfile ''Guest User'' ''volunteer@example.com''
        (foldl edit (openForm exampleProfile)
           [TypeName ''Ann B'', RemoveInterest ''music'', TypeStory ''Hello'']))
      = [''Art'', ''Health'']
   \<and> distinctIgnoringCase (profileInterests (submitProfile ''Guest User'' ''volunteer@example.com''
        (foldl edit (openForm exampleProfile)
           [TypeName ''Ann B'', RemoveInterest ''music'', TypeStory ''Hello''])))
   \<and> profileInterests (submitProfilePage ''Ann'' ''Art, ,music'') = [''Art'', ''music'']"
proof -
  have d: "distinctIgnoringCase (profileInterests exampleProfile)"
    by (simp add: distinctIgnoringCase_def exampleProfile_def toLowerCase_def toLowerChar_def)
  have k: "filter (\<lambda>interest. interest \<notin> set (removedInterests
              [TypeName ''Ann B'', RemoveInterest ''music'', TypeStory ''Hello'']))
            (profileInterests exampleProfile) = [''Art'', ''Health'']"
    by (simp add: exampleProfile_def)
  have c: "profileInterests (submitProfilePage ''Ann'' ''Art, ,music'') = [''Art'', ''music'']"
    by (simp add: submitProfilePage_def interestList_def trim_def isSpace_def)
  note saved = save_keeps_interests [of "''Guest User''" "''volunteer@example.com''"
      exampleProfile "[TypeName ''Ann B'', RemoveInterest ''music'', TypeStory ''Hello'']"
      "''My story''" "''Art, ,music''" "''Ann''", unfolded k]
  have a: "profileInterests (submitProfile ''Guest User'' ''volunteer@example.com''
        (foldl edit (openForm exampleProfile)
           [TypeName ''Ann B'', RemoveInterest ''music'', TypeStory ''Hello'']))
      = [''Art'', ''Health'']"
    by (rule saved [THEN conjunct1])
  have b: "distinctIgnoringCase (profileInterests (submitProfile ''Guest User''
        ''volunteer@example.com''
        (foldl edit (openForm exampleProfile)
           [TypeName ''Ann B'', RemoveInterest ''music'', TypeStory ''Hello''])))"
    by (rule saved [THEN conjunct2, THEN conjunct1, rule_format, OF d])
  from d a b c show ?thesis
    by (intro conjI)
qed

text \<open>
  C9 as stated fails: the comma-separated form saves \<open>Art\<close> and \<open>art\<close> side by side.
\<close>

theorem save_duplicates_counterexample:
  "profileInterests (submitProfilePage ''Ann'' ''Art, art ,music'') = [''Art'', ''art'', ''music'']
   \<and> \<not> distinctIgnoringCase (profileInterests (submitProfilePage ''Ann'' ''Art, art ,music''))"
  by (simp add: submitProfilePage_def interestList_def trim_def isSpace_def
      distinctIgnoringCase_def toLowerCase_def toLowerChar_def)

end
